theory Spec2Isabelle
  imports Complex_Main
begin

section \<open>JavaScript string primitives used by the sources\<close>

text \<open>
  Strings are byte lists. \<open>trim\<close> removes the ASCII white space characters from both
  ends, \<open>toLowerCase\<close> maps the ASCII capitals to their small letters and leaves every
  other byte alone; \<open>indexOf\<close> returns \<open>None\<close> where JavaScript returns \<open>-1\<close>.
\<close>

definition isSpace :: "char \<Rightarrow> bool" where
  "isSpace c = (c \<in> set [CHR '' '', CHR 0x09, CHR 0x0A, CHR 0x0B, CHR 0x0C, CHR 0x0D])"

definition trim :: "string \<Rightarrow> string" where
  "trim s = rev (dropWhile isSpace (rev (dropWhile isSpace s)))"

definition lowerChar :: "char \<Rightarrow> char" where
  "lowerChar c =
     (case map_of (zip ''ABCDEFGHIJKLMNOPQRSTUVWXYZ'' ''abcdefghijklmnopqrstuvwxyz'') c of
        Some l \<Rightarrow> l
      | None \<Rightarrow> c)"

definition toLowerCase :: "string \<Rightarrow> string" where
  "toLowerCase s = map lowerChar s"

fun indexOf :: "string \<Rightarrow> char \<Rightarrow> nat option" where
  "indexOf [] c = None"
| "indexOf (x # xs) c = (if x = c then Some 0 else map_option Suc (indexOf xs c))"

definition startsWith :: "string \<Rightarrow> string \<Rightarrow> bool" where
  "startsWith s p = (take (length p) s = p)"

fun includesStr :: "string \<Rightarrow> string \<Rightarrow> bool" where
  "includesStr [] needle = (needle = [])"
| "includesStr (h # hs) needle = (startsWith (h # hs) needle \<or> includesStr hs needle)"

fun joinWith :: "string \<Rightarrow> string list \<Rightarrow> string" where
  "joinWith sep [] = []"
| "joinWith sep [x] = x"
| "joinWith sep (x # y # ys) = x @ sep @ joinWith sep (y # ys)"

definition digitChar :: "nat \<Rightarrow> char" where
  "digitChar d = (''0123456789'' ! d)"

function showNat :: "nat \<Rightarrow> string" where
  "showNat n = (if n < 10 then [digitChar n] else showNat (n div 10) @ [digitChar (n mod 10)])"
  by pat_completeness auto
termination
  by (relation "measure (\<lambda>n. n)") auto

declare showNat.simps [simp del]

definition dq :: string where
  "dq = [CHR 0x22]"

section \<open>Model references, alias index and the helpers of agents/model-selection\<close>

record ModelRef =
  provider :: string
  model :: string

record ModelDirectiveSelection = ModelRef +
  isDefault :: bool
  aliasName :: "string option"

text \<open>
  Modelled from the spec: the type \<open>ModelAliasIndex\<close> of agents/model-selection, whose
  declaration is not among the sources, with the fields the source reads. An entry of
  \<open>aliasIndex.byAlias\<close> holds the alias as configured and the reference it stands for;
  \<open>byKey\<close> maps a model key to the aliases configured for it. Both are JavaScript
  \<open>Map\<close>s, iterated in insertion order, hence association lists.
\<close>

record AliasEntry =
  entryAlias :: string
  ref :: ModelRef

record ModelAliasIndex =
  byAlias :: "(string \<times> AliasEntry) list"
  byKey :: "(string \<times> string list) list"

text \<open>
  \<open>modelKey\<close>, \<open>normalizeProviderId\<close> and \<open>resolveModelRefFromString\<close> are imported by
  reply/model-selection.ts from agents/model-selection, which is not among the sources.
  They are parameters of the model: every theorem below that quantifies over
  \<open>h\<close> holds for any implementation of the three.
\<close>

record helpers =
  modelKey :: "string \<Rightarrow> string \<Rightarrow> string"
  normalizeProviderId :: "string \<Rightarrow> string"
  resolveModelRefFromString ::
    "string \<Rightarrow> string \<Rightarrow> ModelAliasIndex \<Rightarrow> (ModelRef \<times> string option) option"

section \<open>resolveModelDirectiveSelection (reply/model-selection.ts)\<close>

text \<open>
  The result object \<open>{ selection?, error? }\<close>: the source returns \<open>{}\<close>, a selection or
  an error, never both.
\<close>

datatype SelectionResult =
  NoResult
  | Selection ModelDirectiveSelection
  | Error string

definition truthyResult :: "SelectionResult \<Rightarrow> bool" where
  "truthyResult r = (case r of NoResult \<Rightarrow> False | Selection s \<Rightarrow> True | Error e \<Rightarrow> e \<noteq> [])"

definition pickAliasForKey :: "helpers \<Rightarrow> ModelAliasIndex \<Rightarrow> string \<Rightarrow> string \<Rightarrow> string option" where
  "pickAliasForKey h aliasIndex p m =
     (case map_of (byKey aliasIndex) (modelKey h p m) of
        None \<Rightarrow> None
      | Some [] \<Rightarrow> None
      | Some (a # as) \<Rightarrow> Some a)"

definition buildSelection ::
  "helpers \<Rightarrow> string \<Rightarrow> string \<Rightarrow> ModelAliasIndex \<Rightarrow> string \<Rightarrow> string \<Rightarrow> ModelDirectiveSelection" where
  "buildSelection h defaultProvider defaultModel aliasIndex p m =
     \<lparr> provider = p, model = m,
       isDefault = (p = defaultProvider \<and> m = defaultModel),
       aliasName = (case pickAliasForKey h aliasIndex p m of
                  None \<Rightarrow> None
                | Some a \<Rightarrow> if a = [] then None else Some a) \<rparr>"

text \<open>One iteration of the loop over \<open>allowedModelKeys\<close>: the candidate a key contributes.\<close>

definition keyCandidate :: "helpers \<Rightarrow> string option \<Rightarrow> string \<Rightarrow> string \<Rightarrow> ModelRef option" where
  "keyCandidate h paramsProvider fragment key =
     (case indexOf key CHR ''/'' of
        None \<Rightarrow> None
      | Some slash \<Rightarrow>
          if slash = 0 then None
          else
            let p = normalizeProviderId h (take slash key);
                m = drop (slash + 1) key
            in if (case paramsProvider of
                     None \<Rightarrow> False
                   | Some pp \<Rightarrow> pp \<noteq> [] \<and> p \<noteq> normalizeProviderId h pp)
               then None
               else
                 let haystack = toLowerCase (p @ ''/'' @ m)
                 in if includesStr haystack fragment \<or> includesStr (toLowerCase m) fragment
                    then Some \<lparr> provider = p, model = m \<rparr>
                    else None)"

fun addAliasMatches :: "helpers \<Rightarrow> string list \<Rightarrow> ModelRef list \<Rightarrow> ModelRef list \<Rightarrow> ModelRef list" where
  "addAliasMatches h allowedModelKeys [] candidates = candidates"
| "addAliasMatches h allowedModelKeys (match # rest) candidates =
     (if modelKey h (provider match) (model match) \<notin> set allowedModelKeys
      then addAliasMatches h allowedModelKeys rest candidates
      else if list_ex (\<lambda>c. provider c = provider match \<and> model c = model match) candidates
      then addAliasMatches h allowedModelKeys rest candidates
      else addAliasMatches h allowedModelKeys rest (candidates @ [match]))"

definition fuzzyCandidates ::
  "helpers \<Rightarrow> ModelAliasIndex \<Rightarrow> string list \<Rightarrow> string option \<Rightarrow> string \<Rightarrow> ModelRef list" where
  "fuzzyCandidates h aliasIndex allowedModelKeys paramsProvider fragment =
     (let candidates = List.map_filter (keyCandidate h paramsProvider fragment) allowedModelKeys
      in if (case paramsProvider of None \<Rightarrow> True | Some pp \<Rightarrow> pp = [])
         then
           let aliasMatches =
                 map (\<lambda>(aliasKey, entry). \<lparr> provider = provider (ref entry), model = model (ref entry) \<rparr>)
                   (filter (\<lambda>(aliasKey, entry). includesStr aliasKey fragment) (byAlias aliasIndex))
           in addAliasMatches h allowedModelKeys aliasMatches candidates
         else candidates)"

definition formatCandidate :: "ModelRef \<Rightarrow> string" where
  "formatCandidate c = provider c @ ''/'' @ model c"

definition ambiguousMore :: "nat \<Rightarrow> string" where
  "ambiguousMore n = (if n > 5 then '' (+'' @ showNat (n - 5) @ '' more)'' else [])"

definition ambiguousError :: "string \<Rightarrow> string list \<Rightarrow> string \<Rightarrow> string" where
  "ambiguousError rawTrimmed shown moreText =
     ''Ambiguous model '' @ dq @ rawTrimmed @ dq @ ''. Matches: '' @ joinWith '', '' shown @ moreText
       @ ''. Use /model to list or specify provider/model.''"

definition unrecognizedError :: "string \<Rightarrow> string" where
  "unrecognizedError rawTrimmed =
     ''Unrecognized model '' @ dq @ rawTrimmed @ dq @ ''. Use /model to list available models.''"

definition notAllowedError :: "ModelRef \<Rightarrow> string" where
  "notAllowedError r =
     ''Model '' @ dq @ provider r @ ''/'' @ model r @ dq
       @ '' is not allowed. Use /model to list available models.''"

definition resolveFuzzy ::
  "helpers \<Rightarrow> string \<Rightarrow> string \<Rightarrow> string \<Rightarrow> ModelAliasIndex \<Rightarrow> string list
     \<Rightarrow> string option \<Rightarrow> string \<Rightarrow> SelectionResult" where
  "resolveFuzzy h rawTrimmed defaultProvider defaultModel aliasIndex allowedModelKeys
       paramsProvider paramsFragment =
     (let fragment = toLowerCase (trim paramsFragment)
      in if fragment = [] then NoResult
         else
           let candidates = fuzzyCandidates h aliasIndex allowedModelKeys paramsProvider fragment
           in if length candidates = 1
              then (case candidates of
                      [] \<Rightarrow> NoResult
                    | match # rest \<Rightarrow>
                        Selection (buildSelection h defaultProvider defaultModel aliasIndex
                                     (provider match) (model match)))
              else if length candidates > 1
              then Error (ambiguousError rawTrimmed
                            (map formatCandidate (take 5 candidates))
                            (ambiguousMore (length candidates)))
              else NoResult)"

text \<open>
  The two fuzzy retries made after an exact match whose key is not allowed: first within
  the provider named before the slash of the reference, then across all allowed models.
\<close>

definition scopedFuzzy ::
  "helpers \<Rightarrow> string \<Rightarrow> string \<Rightarrow> string \<Rightarrow> ModelAliasIndex \<Rightarrow> string list \<Rightarrow> SelectionResult" where
  "scopedFuzzy h rawTrimmed defaultProvider defaultModel aliasIndex allowedModelKeys =
     (if includesStr (toLowerCase rawTrimmed) ''/''
      then (case indexOf rawTrimmed CHR ''/'' of
              None \<Rightarrow> NoResult
            | Some slash \<Rightarrow>
                resolveFuzzy h rawTrimmed defaultProvider defaultModel aliasIndex allowedModelKeys
                  (Some (normalizeProviderId h (trim (take slash rawTrimmed))))
                  (trim (drop (slash + 1) rawTrimmed)))
      else NoResult)"

definition unscopedFuzzy ::
  "helpers \<Rightarrow> string \<Rightarrow> string \<Rightarrow> string \<Rightarrow> ModelAliasIndex \<Rightarrow> string list \<Rightarrow> SelectionResult" where
  "unscopedFuzzy h rawTrimmed defaultProvider defaultModel aliasIndex allowedModelKeys =
     resolveFuzzy h rawTrimmed defaultProvider defaultModel aliasIndex allowedModelKeys None rawTrimmed"

definition resolveModelDirectiveSelection ::
  "helpers \<Rightarrow> string \<Rightarrow> string \<Rightarrow> string \<Rightarrow> ModelAliasIndex \<Rightarrow> string list \<Rightarrow> SelectionResult" where
  "resolveModelDirectiveSelection h raw defaultProvider defaultModel aliasIndex allowedModelKeys =
     (let rawTrimmed = trim raw
      in case resolveModelRefFromString h rawTrimmed defaultProvider aliasIndex of
           None \<Rightarrow>
             (let fuzzy = unscopedFuzzy h rawTrimmed defaultProvider defaultModel aliasIndex
                            allowedModelKeys
              in if truthyResult fuzzy then fuzzy
                 else Error (unrecognizedError rawTrimmed))
         | Some (resolvedRef, resolvedAlias) \<Rightarrow>
             (let resolvedKey = modelKey h (provider resolvedRef) (model resolvedRef)
              in if allowedModelKeys = [] \<or> resolvedKey \<in> set allowedModelKeys
                 then Selection \<lparr> provider = provider resolvedRef, model = model resolvedRef,
                        isDefault = (provider resolvedRef = defaultProvider
                                       \<and> model resolvedRef = defaultModel),
                        aliasName = resolvedAlias \<rparr>
                 else
                   let scoped = scopedFuzzy h rawTrimmed defaultProvider defaultModel aliasIndex
                                  allowedModelKeys
                   in if truthyResult scoped then scoped
                      else
                        let fuzzy = unscopedFuzzy h rawTrimmed defaultProvider defaultModel
                                      aliasIndex allowedModelKeys
                        in if truthyResult fuzzy then fuzzy
                           else Error (notAllowedError resolvedRef)))"

section \<open>A concrete instance of the helpers\<close>

text \<open>
  Modelled from the spec: \<open>modelKey\<close>, \<open>normalizeProviderId\<close>, \<open>parseModelRef\<close> and
  \<open>resolveModelRefFromString\<close> of agents/model-selection, which is not among the sources.
  A key is written \<open>provider/model\<close>; provider ids are compared trimmed and without
  regard to case. Resolution follows steps 1 and 2 of the resolver's order: an exact
  \<open>provider/model\<close>, or a bare model under the default provider, matched against the
  catalog after the known shorthand (\<open>anthropic/opus-4.5\<close> stands for
  \<open>claude-opus-4-5\<close>, as the test of \<open>parseModelRef\<close> has it) is normalised; then an
  exact alias (trimmed, case-sensitive). The catalog is the list of the known
  (provider, model id) pairs.
\<close>

definition specModelKey :: "string \<Rightarrow> string \<Rightarrow> string" where
  "specModelKey p m = p @ ''/'' @ m"

definition specNormalizeProviderId :: "string \<Rightarrow> string" where
  "specNormalizeProviderId p = toLowerCase (trim p)"

definition parseModelRef :: "string \<Rightarrow> string \<Rightarrow> ModelRef option" where
  "parseModelRef raw defaultProvider =
     (let trimmed = trim raw
      in if trimmed = [] then None
         else
           let split =
                 (case indexOf trimmed CHR ''/'' of
                    None \<Rightarrow> (defaultProvider, trimmed)
                  | Some slash \<Rightarrow>
                      (specNormalizeProviderId (take slash trimmed),
                       trim (drop (slash + 1) trimmed)));
               p = fst split;
               m = (if p = ''anthropic'' \<and> snd split = ''opus-4.5''
                    then ''claude-opus-4-5'' else snd split)
           in if p = [] \<or> m = [] then None
              else Some \<lparr> provider = p, model = m \<rparr>)"

definition specResolveModelRefFromString ::
  "ModelRef list \<Rightarrow> string \<Rightarrow> string \<Rightarrow> ModelAliasIndex \<Rightarrow> (ModelRef \<times> string option) option" where
  "specResolveModelRefFromString catalog raw defaultProvider aliasIndex =
     (let exact = (case parseModelRef raw defaultProvider of
                     None \<Rightarrow> None
                   | Some r \<Rightarrow> if r \<in> set catalog then Some r else None)
      in case exact of
           Some r \<Rightarrow> Some (r, None)
         | None \<Rightarrow>
             (case map_of (byAlias aliasIndex) (trim raw) of
                None \<Rightarrow> None
              | Some entry \<Rightarrow> Some (ref entry, Some (entryAlias entry))))"

definition specHelpers :: "ModelRef list \<Rightarrow> helpers" where
  "specHelpers catalog =
     \<lparr> modelKey = specModelKey,
       normalizeProviderId = specNormalizeProviderId,
       resolveModelRefFromString = specResolveModelRefFromString catalog \<rparr>"

section \<open>Session entries and createModelSelectionState (reply/model-selection.ts)\<close>

text \<open>
  Modelled from the spec: the type \<open>SessionEntry\<close> of config/sessions, whose declaration
  is not among the sources. The entry carries the fields of the data model of section 3:
  the identity and time stamp, the three overrides, the four mode levels and the four
  queue settings. An absent field is \<open>None\<close>.
\<close>

datatype VerboseLevel = VerboseOn | VerboseOff
datatype ElevatedLevel = ElevatedOn | ElevatedOff
datatype ThinkLevel = ThinkOff | ThinkMinimal | ThinkLow | ThinkMedium | ThinkHigh
datatype ReasoningLevel = ReasoningOn | ReasoningOff | ReasoningStream
datatype QueueMode = QueueInterrupt | QueueSteer | QueueFollowup | QueueCollect | QueueSteerBacklog
datatype QueueDrop = DropOld | DropNew | DropSummarize

record SessionEntry =
  sessionId :: string
  updatedAt :: int
  modelOverride :: "string option"
  providerOverride :: "string option"
  authProfileOverride :: "string option"
  verboseLevel :: "VerboseLevel option"
  elevatedLevel :: "ElevatedLevel option"
  thinkingLevel :: "ThinkLevel option"
  reasoningLevel :: "ReasoningLevel option"
  queueMode :: "QueueMode option"
  queueDebounceMs :: "nat option"
  queueCap :: "nat option"
  queueDrop :: "QueueDrop option"

type_synonym SessionStore = "string \<rightharpoonup> SessionEntry"

text \<open>
  A catalog entry is identified by its provider and model id; its display name plays no
  role in the code modelled here.
\<close>

type_synonym ModelCatalog = "ModelRef list"

text \<open>
  What \<open>buildAllowedModelSet\<close> returns: the allowed part of the catalog and the set of
  allowed keys (a JavaScript \<open>Set\<close>, here the list of its elements in insertion order).
\<close>

record AllowedModelSet =
  allowedCatalog :: ModelCatalog
  allowedKeys :: "string list"

text \<open>
  The collaborators \<open>createModelSelectionState\<close> calls and that are not among the
  sources, as parameters: \<open>loadedAllowed\<close> is the value of \<open>buildAllowedModelSet\<close> on
  the catalog that \<open>loadModelCatalog\<close> returns, \<open>authProfiles\<close> maps the name of each
  profile of \<open>ensureAuthProfileStore\<close> to its provider, and the two clock readings are the
  values of \<open>Date.now()\<close> at the two places the function calls it.
\<close>

record Collaborators =
  loadedAllowed :: AllowedModelSet
  authProfiles :: "(string \<times> string) list"
  nowAtOverrideReset :: int
  nowAtAuthReset :: int

text \<open>
  The parameters: \<open>provider\<close> and \<open>model\<close> are the fields inherited from \<open>ModelRef\<close>.
  Of \<open>agentCfg\<close> only the keys of \<open>agentCfg.models\<close> are read; \<open>cfg\<close> is only handed on
  to the collaborators above.
\<close>

record CreateParams = ModelRef +
  agentCfgModels :: "string list option"
  sessionEntry :: "SessionEntry option"
  sessionStore :: "SessionStore option"
  sessionKey :: "string option"
  storePath :: "string option"
  defaultProvider :: string
  defaultModel :: string
  hasModelDirective :: bool

text \<open>
  The returned state. Its lazily evaluated \<open>resolveDefaultThinkingLevel\<close> closure neither
  touches the session entry nor changes the other fields, and is left out.
\<close>

record ModelSelectionState = ModelRef +
  allowedModelKeys :: "string list"
  allowedModelCatalog :: ModelCatalog
  resetModelOverride :: bool
  needsModelCatalog :: bool

text \<open>
  The effects: the entry object after the call, the store after the call, and the
  calls of \<open>saveSessionStore\<close> in order, each with the path and the store written. The
  source mutates the entry object only in the two blocks that also assign it to
  \<open>sessionStore[sessionKey]\<close>; here the entry is passed by value and written back there.
\<close>

record SessionFiles =
  entryNow :: "SessionEntry option"
  storeNow :: "SessionStore option"
  saved :: "(string \<times> SessionStore) list"

record Outcome =
  state :: ModelSelectionState
  files :: SessionFiles

definition truthyStr :: "string option \<Rightarrow> bool" where
  "truthyStr s = (case s of None \<Rightarrow> False | Some v \<Rightarrow> v \<noteq> [])"

definition trimmedOr :: "string option \<Rightarrow> string \<Rightarrow> string" where
  "trimmedOr s d = (case s of None \<Rightarrow> d | Some v \<Rightarrow> if trim v = [] then d else trim v)"

definition hasStoredOverride :: "SessionEntry option \<Rightarrow> bool" where
  "hasStoredOverride se =
     (case se of
        None \<Rightarrow> False
      | Some e \<Rightarrow> truthyStr (modelOverride e) \<or> truthyStr (providerOverride e))"

definition saveSessionStore :: "string option \<Rightarrow> SessionStore \<Rightarrow> (string \<times> SessionStore) list" where
  "saveSessionStore path st =
     (case path of None \<Rightarrow> [] | Some p \<Rightarrow> if p = [] then [] else [(p, st)])"

text \<open>Lines 89 to 106: a stored override whose key is not allowed is deleted.\<close>

definition resetDisallowedOverride ::
  "helpers \<Rightarrow> Collaborators \<Rightarrow> 'a CreateParams_scheme \<Rightarrow> string list \<Rightarrow> SessionFiles \<times> bool" where
  "resetDisallowedOverride h env params allowedKeySet =
     (let unchanged = (\<lparr> entryNow = sessionEntry params, storeNow = sessionStore params,
                          saved = [] \<rparr>, False)
      in case sessionEntry params of
           None \<Rightarrow> unchanged
         | Some e \<Rightarrow>
             (case sessionStore params of
                None \<Rightarrow> unchanged
              | Some st \<Rightarrow>
                  if truthyStr (sessionKey params) \<and> hasStoredOverride (sessionEntry params)
                  then
                    let sessionKeyValue = (case sessionKey params of None \<Rightarrow> [] | Some k \<Rightarrow> k);
                        overrideProvider = trimmedOr (providerOverride e) (defaultProvider params);
                        overrideModel = map_option trim (modelOverride e)
                    in (case overrideModel of
                          None \<Rightarrow> unchanged
                        | Some om \<Rightarrow>
                            if om \<noteq> [] \<and> allowedKeySet \<noteq> []
                               \<and> modelKey h overrideProvider om \<notin> set allowedKeySet
                            then
                              let e' = e\<lparr> providerOverride := None, modelOverride := None,
                                         updatedAt := nowAtOverrideReset env \<rparr>;
                                  st' = st(sessionKeyValue \<mapsto> e')
                              in (\<lparr> entryNow = Some e', storeNow = Some st',
                                     saved = saveSessionStore (storePath params) st' \<rparr>, True)
                            else unchanged)
                  else unchanged))"

text \<open>Lines 108 to 117: the effective provider and model.\<close>

definition effectiveModel ::
  "helpers \<Rightarrow> 'a CreateParams_scheme \<Rightarrow> string list \<Rightarrow> SessionEntry option \<Rightarrow> ModelRef" where
  "effectiveModel h params allowedKeySet se =
     (let passedIn = \<lparr> provider = provider params, model = model params \<rparr>
      in case se of
           None \<Rightarrow> passedIn
         | Some e \<Rightarrow>
             (case map_option trim (modelOverride e) of
                None \<Rightarrow> passedIn
              | Some storedModelOverride \<Rightarrow>
                  if storedModelOverride = [] then passedIn
                  else
                    let candidateProvider = trimmedOr (providerOverride e) (defaultProvider params)
                    in if allowedKeySet = []
                          \<or> modelKey h candidateProvider storedModelOverride \<in> set allowedKeySet
                       then \<lparr> provider = candidateProvider, model = storedModelOverride \<rparr>
                       else passedIn))"

text \<open>Lines 119 to 140: a stored auth profile that is unknown or of another provider is cleared.\<close>

definition clearStaleAuthProfile ::
  "Collaborators \<Rightarrow> 'a CreateParams_scheme \<Rightarrow> string \<Rightarrow> SessionFiles \<Rightarrow> SessionFiles" where
  "clearStaleAuthProfile env params effectiveProvider fs =
     (case entryNow fs of
        None \<Rightarrow> fs
      | Some e \<Rightarrow>
          (case storeNow fs of
             None \<Rightarrow> fs
           | Some st \<Rightarrow>
               if truthyStr (sessionKey params) \<and> truthyStr (authProfileOverride e)
               then
                 (if (case authProfileOverride e of
                        None \<Rightarrow> True
                      | Some name \<Rightarrow> map_of (authProfiles env) name \<noteq> Some effectiveProvider)
                  then
                    let sessionKeyValue = (case sessionKey params of None \<Rightarrow> [] | Some k \<Rightarrow> k);
                        e' = e\<lparr> authProfileOverride := None, updatedAt := nowAtAuthReset env \<rparr>;
                        st' = st(sessionKeyValue \<mapsto> e')
                    in \<lparr> entryNow = Some e', storeNow = Some st',
                         saved = saved fs @ saveSessionStore (storePath params) st' \<rparr>
                  else fs)
               else fs))"

definition createModelSelectionState ::
  "helpers \<Rightarrow> Collaborators \<Rightarrow> 'a CreateParams_scheme \<Rightarrow> Outcome" where
  "createModelSelectionState h env params =
     (let hasAllowlist = (case agentCfgModels params of None \<Rightarrow> False | Some ks \<Rightarrow> length ks > 0);
          needs = (hasModelDirective params \<or> hasAllowlist \<or> hasStoredOverride (sessionEntry params));
          keys = (if needs then allowedKeys (loadedAllowed env) else []);
          catalog = (if needs then allowedCatalog (loadedAllowed env) else []);
          (fs1, reset) = resetDisallowedOverride h env params keys;
          eff = effectiveModel h params keys (entryNow fs1);
          fs2 = clearStaleAuthProfile env params (provider eff) fs1
      in \<lparr> state = \<lparr> provider = provider eff, model = model eff,
                      allowedModelKeys = keys, allowedModelCatalog = catalog,
                      resetModelOverride = reset, needsModelCatalog = needs \<rparr>,
           files = fs2 \<rparr>)"

section \<open>The session store and the queue directive\<close>

text \<open>
  Modelled from the spec: the session store of section 4.1 and the \<open>queue\<close> directive of
  sections 4.2 and 4.4. The directive engine (auto-reply/reply and its directive parsers)
  is not among the sources; its tests are, and the acknowledgement and error lines
  below are the ones the tests expect, without the leading gear marker. \<open>get\<close> returns a
  default entry for an absent key; \<open>update\<close> applies a mutator to the current entry and
  stores the result with a fresh time stamp.
\<close>

definition defaultEntry :: SessionEntry where
  "defaultEntry =
     \<lparr> sessionId = [], updatedAt = 0, modelOverride = None, providerOverride = None,
       authProfileOverride = None, verboseLevel = None, elevatedLevel = None,
       thinkingLevel = None, reasoningLevel = None, queueMode = None,
       queueDebounceMs = None, queueCap = None, queueDrop = None \<rparr>"

definition storeGet :: "SessionStore \<Rightarrow> string \<Rightarrow> SessionEntry" where
  "storeGet st k = (case st k of None \<Rightarrow> defaultEntry | Some e \<Rightarrow> e)"

definition storeUpdate ::
  "int \<Rightarrow> SessionStore \<Rightarrow> string \<Rightarrow> (SessionEntry \<Rightarrow> SessionEntry) \<Rightarrow> SessionStore" where
  "storeUpdate now st k mutator = st(k \<mapsto> (mutator (storeGet st k))\<lparr> updatedAt := now \<rparr>)"

text \<open>
  The arguments of \<open>queue\<close>: a mode (\<open>interrupt\<close>, \<open>steer\<close>, \<open>followup\<close>, \<open>collect\<close>,
  \<open>steer+backlog\<close>), \<open>debounce:<duration>\<close> (an integer of milliseconds, or an integer
  with the suffix \<open>ms\<close>, \<open>s\<close> or \<open>m\<close>), \<open>cap:<n>\<close> (a positive integer),
  \<open>drop:<policy>\<close> (\<open>old\<close>, \<open>new\<close> or \<open>summarize\<close>), or \<open>reset\<close>.
\<close>

definition parseQueueMode :: "string \<Rightarrow> QueueMode option" where
  "parseQueueMode s =
     map_of [(''interrupt'', QueueInterrupt), (''steer'', QueueSteer), (''followup'', QueueFollowup),
             (''collect'', QueueCollect), (''steer+backlog'', QueueSteerBacklog)] s"

definition parseQueueDrop :: "string \<Rightarrow> QueueDrop option" where
  "parseQueueDrop s =
     map_of [(''old'', DropOld), (''new'', DropNew), (''summarize'', DropSummarize)] s"

definition digitValue :: "char \<Rightarrow> nat option" where
  "digitValue c = indexOf ''0123456789'' c"

fun parseDigits :: "nat \<Rightarrow> string \<Rightarrow> nat option" where
  "parseDigits acc [] = Some acc"
| "parseDigits acc (c # cs) =
     (case digitValue c of None \<Rightarrow> None | Some d \<Rightarrow> parseDigits (10 * acc + d) cs)"

definition parseNat :: "string \<Rightarrow> nat option" where
  "parseNat s = (if s = [] then None else parseDigits 0 s)"

definition endsWith :: "string \<Rightarrow> string \<Rightarrow> bool" where
  "endsWith s suffix = (length suffix \<le> length s \<and> drop (length s - length suffix) s = suffix)"

definition parseDuration :: "string \<Rightarrow> nat option" where
  "parseDuration s =
     (case parseNat s of
        Some n \<Rightarrow> Some n
      | None \<Rightarrow>
          if endsWith s ''ms'' then parseNat (take (length s - 2) s)
          else if endsWith s ''s'' then map_option (\<lambda>n. n * 1000) (parseNat (take (length s - 1) s))
          else if endsWith s ''m'' then map_option (\<lambda>n. n * 60000) (parseNat (take (length s - 1) s))
          else None)"

definition parseCap :: "string \<Rightarrow> nat option" where
  "parseCap s = (case parseNat s of None \<Rightarrow> None | Some n \<Rightarrow> if 0 < n then Some n else None)"

datatype QueueToken =
  ResetToken
  | DebounceToken string
  | CapToken string
  | DropToken string
  | ModeToken string

definition classifyQueueToken :: "string \<Rightarrow> QueueToken" where
  "classifyQueueToken t =
     (if t = ''reset'' then ResetToken
      else if startsWith t ''debounce:'' then DebounceToken (drop 9 t)
      else if startsWith t ''cap:'' then CapToken (drop 4 t)
      else if startsWith t ''drop:'' then DropToken (drop 5 t)
      else ModeToken t)"

text \<open>
  Validation comes before mutation: every token that does not parse gives one error
  line naming the option and quoting the value, and a command with an error line leaves
  the store alone. A command without arguments reports the settings.
\<close>

definition invalidLine :: "string \<Rightarrow> string \<Rightarrow> string" where
  "invalidLine what v = ''Invalid '' @ what @ '' '' @ dq @ v @ dq @ ''.''"

fun queueTokenError :: "QueueToken \<Rightarrow> string option" where
  "queueTokenError ResetToken = None"
| "queueTokenError (DebounceToken v) =
     (if parseDuration v = None then Some (invalidLine ''debounce'' v) else None)"
| "queueTokenError (CapToken v) =
     (if parseCap v = None then Some (invalidLine ''cap'' v) else None)"
| "queueTokenError (DropToken v) =
     (if parseQueueDrop v = None then Some (invalidLine ''drop policy'' v) else None)"
| "queueTokenError (ModeToken v) =
     (if parseQueueMode v = None then Some (invalidLine ''queue mode'' v) else None)"

fun applyQueueToken :: "QueueToken \<Rightarrow> SessionEntry \<Rightarrow> SessionEntry" where
  "applyQueueToken ResetToken e =
     e\<lparr> queueMode := None, queueDebounceMs := None, queueCap := None, queueDrop := None \<rparr>"
| "applyQueueToken (DebounceToken v) e = e\<lparr> queueDebounceMs := parseDuration v \<rparr>"
| "applyQueueToken (CapToken v) e = e\<lparr> queueCap := parseCap v \<rparr>"
| "applyQueueToken (DropToken v) e = e\<lparr> queueDrop := parseQueueDrop v \<rparr>"
| "applyQueueToken (ModeToken v) e = e\<lparr> queueMode := parseQueueMode v \<rparr>"

fun queueTokenAck :: "QueueToken \<Rightarrow> string" where
  "queueTokenAck ResetToken = ''Queue mode reset to default.''"
| "queueTokenAck (DebounceToken v) =
     ''Queue debounce set to '' @ (case parseDuration v of None \<Rightarrow> [] | Some n \<Rightarrow> showNat n) @ ''ms.''"
| "queueTokenAck (CapToken v) =
     ''Queue cap set to '' @ (case parseCap v of None \<Rightarrow> [] | Some n \<Rightarrow> showNat n) @ ''.''"
| "queueTokenAck (DropToken v) = ''Queue drop set to '' @ v @ ''.''"
| "queueTokenAck (ModeToken v) = ''Queue mode set to '' @ v @ ''.''"

definition executeQueueDirective ::
  "int \<Rightarrow> SessionStore \<Rightarrow> string \<Rightarrow> string list \<Rightarrow> SessionStore \<times> string list" where
  "executeQueueDirective now st k args =
     (let tokens = map classifyQueueToken args;
          errors = List.map_filter queueTokenError tokens
      in if errors \<noteq> [] then (st, errors)
         else if tokens = [] then (st, [''Current queue settings.''])
         else (storeUpdate now st k (\<lambda>e. fold applyQueueToken tokens e),
               map queueTokenAck tokens))"

text \<open>
  The spec's words on the arguments, written down a second time and apart from the
  parsers above, to compare the two: a decimal text is a non-empty row of the digits
  \<open>0\<close> to \<open>9\<close> and stands for its value in base ten; a duration is a decimal text, alone
  (milliseconds) or followed by \<open>ms\<close>, \<open>s\<close> or \<open>m\<close>; a cap is a decimal text of a positive
  value.
\<close>

definition specDigit :: "char \<Rightarrow> bool" where
  "specDigit c = (c \<in> set ''0123456789'')"

definition specDecimal :: "string \<Rightarrow> bool" where
  "specDecimal s = (s \<noteq> [] \<and> list_all specDigit s)"

definition specDecimalValue :: "string \<Rightarrow> nat" where
  "specDecimalValue s = foldl (\<lambda>a c. 10 * a + (of_char c - 48)) 0 s"

definition specSuffixed :: "string \<Rightarrow> string \<Rightarrow> bool" where
  "specSuffixed v sfx =
     (length sfx \<le> length v \<and> drop (length v - length sfx) v = sfx
      \<and> specDecimal (take (length v - length sfx) v))"

definition specDuration :: "string \<Rightarrow> bool" where
  "specDuration v =
     (specDecimal v \<or> specSuffixed v ''ms'' \<or> specSuffixed v ''s'' \<or> specSuffixed v ''m'')"

definition specPositive :: "string \<Rightarrow> bool" where
  "specPositive v = (specDecimal v \<and> 0 < specDecimalValue v)"

text \<open>
  The error line the spec asks of each argument, with its text spelled out: the option by
  name, the rejected value between double quotes.
\<close>

definition specQueueArgError :: "string \<Rightarrow> string option" where
  "specQueueArgError a =
     (if a = ''reset'' then None
      else if take 9 a = ''debounce:''
      then (if specDuration (drop 9 a) then None
            else Some (''Invalid debounce '' @ [CHR 0x22] @ drop 9 a @ [CHR 0x22] @ ''.''))
      else if take 4 a = ''cap:''
      then (if specPositive (drop 4 a) then None
            else Some (''Invalid cap '' @ [CHR 0x22] @ drop 4 a @ [CHR 0x22] @ ''.''))
      else if take 5 a = ''drop:''
      then (if drop 5 a \<in> {''old'', ''new'', ''summarize''} then None
            else Some (''Invalid drop policy '' @ [CHR 0x22] @ drop 5 a @ [CHR 0x22] @ ''.''))
      else if a \<in> {''interrupt'', ''steer'', ''followup'', ''collect'', ''steer+backlog''}
      then None
      else Some (''Invalid queue mode '' @ [CHR 0x22] @ a @ [CHR 0x22] @ ''.''))"

text \<open>
  The pair a resolution selects, if it selects one: the observation the alias claim
  compares.
\<close>

definition selectedRef :: "SelectionResult \<Rightarrow> ModelRef option" where
  "selectedRef r =
     (case r of
        Selection s \<Rightarrow> Some \<lparr> provider = provider s, model = model s \<rparr>
      | NoResult \<Rightarrow> None
      | Error e \<Rightarrow> None)"

section \<open>Example configurations\<close>

definition exampleCatalog :: ModelCatalog where
  "exampleCatalog =
     [\<lparr> provider = ''anthropic'', model = ''claude-opus-4-5'' \<rparr>,
      \<lparr> provider = ''anthropic'', model = ''claude-opus-4'' \<rparr>,
      \<lparr> provider = ''anthropic'', model = ''claude-sonnet-4-1'' \<rparr>,
      \<lparr> provider = ''openai'', model = ''gpt-4.1-mini'' \<rparr>]"

definition noAliases :: ModelAliasIndex where
  "noAliases = \<lparr> byAlias = [], byKey = [] \<rparr>"

definition opusEntry :: AliasEntry where
  "opusEntry = \<lparr> entryAlias = ''Opus'',
                  ref = \<lparr> provider = ''anthropic'', model = ''claude-opus-4-5'' \<rparr> \<rparr>"



definition claudeKeys :: "string list" where
  "claudeKeys =
     [''anthropic/claude-opus-4-5'', ''anthropic/claude-sonnet-4-1'', ''anthropic/claude-a'',
      ''anthropic/claude-b'', ''anthropic/claude-c'', ''anthropic/claude-d'',
      ''anthropic/claude-e'']"

definition staleEntry :: SessionEntry where
  "staleEntry =
     \<lparr> sessionId = ''s'', updatedAt = 1, modelOverride = Some ''gpt-9'',
       providerOverride = Some ''openai'', authProfileOverride = None, verboseLevel = None,
       elevatedLevel = None, thinkingLevel = None, reasoningLevel = None, queueMode = None,
       queueDebounceMs = None, queueCap = None, queueDrop = None \<rparr>"

definition exampleCollaborators :: Collaborators where
  "exampleCollaborators =
     \<lparr> loadedAllowed = \<lparr> allowedCatalog = [\<lparr> provider = ''anthropic'', model = ''claude-opus-4-5'' \<rparr>],
                          allowedKeys = [''anthropic/claude-opus-4-5''] \<rparr>,
       authProfiles = [], nowAtOverrideReset = 100, nowAtAuthReset = 101 \<rparr>"

definition staleParams :: CreateParams where
  "staleParams =
     \<lparr> provider = ''anthropic'', model = ''claude-opus-4-5'',
       agentCfgModels = Some [''anthropic/claude-opus-4-5''],
       sessionEntry = Some staleEntry,
       sessionStore = Some [''agent:main:main'' \<mapsto> staleEntry],
       sessionKey = Some ''agent:main:main'',
       storePath = Some ''sessions.json'',
       defaultProvider = ''anthropic'', defaultModel = ''claude-opus-4-5'',
       hasModelDirective = False \<rparr>"

definition storelessParams :: CreateParams where
  "storelessParams =
     staleParams \<lparr> provider := ''openai'', model := ''gpt-4.1-mini'',
                   sessionStore := None, sessionKey := None \<rparr>"

text \<open>A store whose entry already carries queue settings.\<close>

definition busyStore :: SessionStore where
  "busyStore =
     [''agent:main:main'' \<mapsto>
        defaultEntry \<lparr> queueMode := Some QueueSteer, queueDebounceMs := Some 1,
                       queueCap := Some 1, queueDrop := Some DropNew \<rparr>]"

section \<open>Lemmas on the model resolver\<close>

text \<open>
  Lower-casing keeps every slash: where the source tests \<open>rawLower.includes("/")\<close> and
  then takes \<open>rawTrimmed.indexOf("/")\<close>, the index exists.
\<close>

lemma lowerChar_slash: "lowerChar c = CHR ''/'' \<longleftrightarrow> c = CHR ''/''"
  by (auto simp: lowerChar_def split: option.splits if_splits)

lemma includesStr_single: "includesStr s [c] \<longleftrightarrow> c \<in> set s"
  by (induction s) (auto simp: startsWith_def)

lemma indexOf_member: "c \<in> set s \<Longrightarrow> \<exists>i. indexOf s c = Some i"
  by (induction s) auto

lemma slash_index_exists:
  assumes "includesStr (toLowerCase s) ''/''"
  shows "\<exists>i. indexOf s CHR ''/'' = Some i"
proof -
  from assms have "CHR ''/'' \<in> set (toLowerCase s)"
    by (simp add: includesStr_single)
  then have "CHR ''/'' \<in> set s"
    by (auto simp: toLowerCase_def dest: sym [THEN lowerChar_slash [THEN iffD1]])
  then show ?thesis
    by (rule indexOf_member)
qed

lemma ambiguousError_nonempty: "ambiguousError r shown m \<noteq> []"
  by (simp add: ambiguousError_def)

lemma resolveFuzzy_cases:
  "resolveFuzzy h rawTrimmed dp dm ai allowed pv fragment =
     (let cs = (if toLowerCase (trim fragment) = [] then []
                else fuzzyCandidates h ai allowed pv (toLowerCase (trim fragment)))
      in case cs of
           [] \<Rightarrow> NoResult
         | [c] \<Rightarrow> Selection (buildSelection h dp dm ai (provider c) (model c))
         | c # d # rest \<Rightarrow>
             Error (ambiguousError rawTrimmed (map formatCandidate (take 5 cs))
                      (if 5 < length cs then '' (+'' @ showNat (length cs - 5) @ '' more)'' else [])))"
  by (simp add: resolveFuzzy_def Let_def ambiguousMore_def split: list.splits)

lemma truthy_resolveFuzzy:
  "truthyResult (resolveFuzzy h rawTrimmed dp dm ai allowed pv fragment)
     = (resolveFuzzy h rawTrimmed dp dm ai allowed pv fragment \<noteq> NoResult)"
  by (simp add: resolveFuzzy_def Let_def truthyResult_def ambiguousError_nonempty split: list.splits)

lemma truthy_NoResult: "truthyResult NoResult = False"
  by (simp add: truthyResult_def)

lemma truthy_unscopedFuzzy:
  "truthyResult (unscopedFuzzy h rawTrimmed dp dm ai allowed)
     = (unscopedFuzzy h rawTrimmed dp dm ai allowed \<noteq> NoResult)"
  by (simp add: unscopedFuzzy_def truthy_resolveFuzzy)

lemma truthy_scopedFuzzy:
  "truthyResult (scopedFuzzy h rawTrimmed dp dm ai allowed)
     = (scopedFuzzy h rawTrimmed dp dm ai allowed \<noteq> NoResult)"
  by (simp add: scopedFuzzy_def truthy_resolveFuzzy truthy_NoResult split: option.splits)

lemma unresolved_result:
  assumes "resolveModelRefFromString h (trim raw) dp ai = None"
  shows "resolveModelDirectiveSelection h raw dp dm ai allowed =
           (case resolveFuzzy h (trim raw) dp dm ai allowed None (trim raw) of
              NoResult \<Rightarrow> Error (unrecognizedError (trim raw))
            | Selection s \<Rightarrow> Selection s
            | Error e \<Rightarrow> Error e)"
  using assms
  by (simp add: resolveModelDirectiveSelection_def Let_def truthy_unscopedFuzzy)
     (simp add: unscopedFuzzy_def split: SelectionResult.splits)

lemma disallowed_result:
  assumes "resolveModelRefFromString h (trim raw) dp ai = Some (r, al)"
    and "allowed \<noteq> []"
    and "modelKey h (provider r) (model r) \<notin> set allowed"
  shows "resolveModelDirectiveSelection h raw dp dm ai allowed =
           (if scopedFuzzy h (trim raw) dp dm ai allowed \<noteq> NoResult
            then scopedFuzzy h (trim raw) dp dm ai allowed
            else if unscopedFuzzy h (trim raw) dp dm ai allowed \<noteq> NoResult
            then unscopedFuzzy h (trim raw) dp dm ai allowed
            else Error (notAllowedError r))"
  using assms
  by (simp add: resolveModelDirectiveSelection_def Let_def truthy_unscopedFuzzy truthy_scopedFuzzy)











section \<open>Lemmas on createModelSelectionState\<close>

lemma trim_Nil [simp]: "trim [] = []"
  by (simp add: trim_def)

lemma reset_fires:
  assumes "sessionEntry params = Some e" "sessionStore params = Some st"
    and "sessionKey params = Some k" "k \<noteq> []"
    and "modelOverride e = Some mo" "trim mo \<noteq> []"
    and "keys \<noteq> []"
    and "modelKey h (trimmedOr (providerOverride e) (defaultProvider params)) (trim mo) \<notin> set keys"
  shows "resetDisallowedOverride h env params keys =
           (\<lparr> entryNow = Some (e\<lparr> providerOverride := None, modelOverride := None,
                                   updatedAt := nowAtOverrideReset env \<rparr>),
               storeNow = Some (st(k \<mapsto> e\<lparr> providerOverride := None, modelOverride := None,
                                   updatedAt := nowAtOverrideReset env \<rparr>)),
               saved = saveSessionStore (storePath params)
                         (st(k \<mapsto> e\<lparr> providerOverride := None, modelOverride := None,
                                   updatedAt := nowAtOverrideReset env \<rparr>)) \<rparr>, True)"
proof -
  from assms(5,6) have "truthyStr (modelOverride e)"
    by (auto simp: truthyStr_def)
  with assms show ?thesis
    by (simp add: resetDisallowedOverride_def Let_def truthyStr_def hasStoredOverride_def)
qed

lemma effective_without_override:
  "modelOverride e = None \<Longrightarrow>
     effectiveModel h params keys (Some e) = \<lparr> provider = provider params, model = model params \<rparr>"
  by (simp add: effectiveModel_def)

lemma effective_cases:
  "effectiveModel h params keys se = \<lparr> provider = provider params, model = model params \<rparr>
     \<or> keys = []
     \<or> modelKey h (provider (effectiveModel h params keys se)) (model (effectiveModel h params keys se))
          \<in> set keys"
  by (simp add: effectiveModel_def Let_def split: option.splits)

lemma clearStale_keeps:
  assumes "entryNow fs = Some e" "storeNow fs = Some st" "st k = Some e"
    and "sessionKey params = Some k"
  shows "\<exists>e' st'. entryNow (clearStaleAuthProfile env params p fs) = Some e'
            \<and> storeNow (clearStaleAuthProfile env params p fs) = Some st'
            \<and> st' k = Some e'
            \<and> providerOverride e' = providerOverride e
            \<and> modelOverride e' = modelOverride e
            \<and> updatedAt e' \<in> {updatedAt e, nowAtAuthReset env}
            \<and> (\<exists>more. saved (clearStaleAuthProfile env params p fs) = saved fs @ more)"
  using assms
  by (auto simp: clearStaleAuthProfile_def Let_def)

lemma create_unfold:
  "createModelSelectionState h env params =
     (let needs = (hasModelDirective params
                    \<or> (case agentCfgModels params of None \<Rightarrow> False | Some ks \<Rightarrow> length ks > 0)
                    \<or> hasStoredOverride (sessionEntry params));
          keys = (if needs then allowedKeys (loadedAllowed env) else []);
          r = resetDisallowedOverride h env params keys;
          eff = effectiveModel h params keys (entryNow (fst r))
      in \<lparr> state = \<lparr> provider = provider eff, model = model eff,
                      allowedModelKeys = keys,
                      allowedModelCatalog = (if needs then allowedCatalog (loadedAllowed env) else []),
                      resetModelOverride = snd r, needsModelCatalog = needs \<rparr>,
           files = clearStaleAuthProfile env params (provider eff) (fst r) \<rparr>)"
  by (simp add: createModelSelectionState_def Let_def split: prod.splits)

lemma create_resets:
  assumes "sessionEntry params = Some e" "sessionStore params = Some st"
    and "sessionKey params = Some k" "k \<noteq> []"
    and "modelOverride e = Some mo" "trim mo \<noteq> []"
    and "allowedKeys (loadedAllowed env) \<noteq> []"
    and "modelKey h (trimmedOr (providerOverride e) (defaultProvider params)) (trim mo)
           \<notin> set (allowedKeys (loadedAllowed env))"
  shows "(\<exists>e' st'. entryNow (files (createModelSelectionState h env params)) = Some e'
            \<and> storeNow (files (createModelSelectionState h env params)) = Some st'
            \<and> st' k = Some e'
            \<and> providerOverride e' = None \<and> modelOverride e' = None
            \<and> updatedAt e' \<in> {nowAtOverrideReset env, nowAtAuthReset env})
       \<and> (\<exists>more. saved (files (createModelSelectionState h env params)) =
              saveSessionStore (storePath params)
                (st(k \<mapsto> e\<lparr> providerOverride := None, modelOverride := None,
                               updatedAt := nowAtOverrideReset env \<rparr>)) @ more)
       \<and> resetModelOverride (state (createModelSelectionState h env params))
       \<and> provider (state (createModelSelectionState h env params)) = provider params
       \<and> model (state (createModelSelectionState h env params)) = model params"
proof -
  let ?e1 = "e\<lparr> providerOverride := None, modelOverride := None,
                updatedAt := nowAtOverrideReset env \<rparr>"
  let ?keys = "allowedKeys (loadedAllowed env)"
  let ?fs1 = "\<lparr> entryNow = Some ?e1, storeNow = Some (st(k \<mapsto> ?e1)),
                saved = saveSessionStore (storePath params) (st(k \<mapsto> ?e1)) \<rparr>"
  have stored: "hasStoredOverride (sessionEntry params)"
    using assms(1,5,6) by (auto simp: hasStoredOverride_def truthyStr_def)
  have r: "resetDisallowedOverride h env params ?keys = (?fs1, True)"
    using reset_fires [OF assms(1-6) assms(7) assms(8)] .
  have eff: "effectiveModel h params ?keys (Some ?e1)
               = \<lparr> provider = provider params, model = model params \<rparr>"
    by (rule effective_without_override) simp
  have out: "createModelSelectionState h env params =
               \<lparr> state = \<lparr> provider = provider params, model = model params,
                      allowedModelKeys = ?keys,
                      allowedModelCatalog = allowedCatalog (loadedAllowed env),
                      resetModelOverride = True, needsModelCatalog = True \<rparr>,
                 files = clearStaleAuthProfile env params (provider params) ?fs1 \<rparr>"
    by (simp add: create_unfold Let_def stored r eff)
  from clearStale_keeps [of ?fs1 ?e1 "st(k \<mapsto> ?e1)" k params env "provider params"] assms(3)
  obtain e' st' more where
    "entryNow (clearStaleAuthProfile env params (provider params) ?fs1) = Some e'"
    "storeNow (clearStaleAuthProfile env params (provider params) ?fs1) = Some st'"
    "st' k = Some e'" "providerOverride e' = None" "modelOverride e' = None"
    "updatedAt e' \<in> {nowAtOverrideReset env, nowAtAuthReset env}"
    "saved (clearStaleAuthProfile env params (provider params) ?fs1) = saved ?fs1 @ more"
    by auto
  then show ?thesis
    by (simp add: out)
qed


lemma create_effective:
  "(provider (state (createModelSelectionState h env params)) = provider params
      \<and> model (state (createModelSelectionState h env params)) = model params)
   \<or> allowedModelKeys (state (createModelSelectionState h env params)) = []
   \<or> modelKey h (provider (state (createModelSelectionState h env params)))
                 (model (state (createModelSelectionState h env params)))
        \<in> set (allowedModelKeys (state (createModelSelectionState h env params)))"
proof -
  define needs where "needs = (hasModelDirective params
                    \<or> (case agentCfgModels params of None \<Rightarrow> False | Some ks \<Rightarrow> length ks > 0)
                    \<or> hasStoredOverride (sessionEntry params))"
  define keys where "keys = (if needs then allowedKeys (loadedAllowed env) else [])"
  define eff where
    "eff = effectiveModel h params keys (entryNow (fst (resetDisallowedOverride h env params keys)))"
  have st: "provider (state (createModelSelectionState h env params)) = provider eff"
    "model (state (createModelSelectionState h env params)) = model eff"
    "allowedModelKeys (state (createModelSelectionState h env params)) = keys"
    by (simp_all add: create_unfold Let_def eff_def keys_def needs_def)
  have "eff = \<lparr> provider = provider params, model = model params \<rparr>
          \<or> keys = [] \<or> modelKey h (provider eff) (model eff) \<in> set keys"
    unfolding eff_def by (rule effective_cases)
  then show ?thesis
    unfolding st
  proof (elim disjE)
    assume "eff = \<lparr> provider = provider params, model = model params \<rparr>"
    then have "provider eff = provider params \<and> model eff = model params"
      by simp
    then show "(provider eff = provider params \<and> model eff = model params) \<or> keys = []
                 \<or> modelKey h (provider eff) (model eff) \<in> set keys"
      by simp
  qed simp_all
qed

section \<open>Lemmas on the queue directive\<close>

lemma parseQueueMode_names:
  "parseQueueMode s = Some m \<Longrightarrow>
     s \<in> {''interrupt'', ''steer'', ''followup'', ''collect'', ''steer+backlog''}"
  by (auto simp: parseQueueMode_def split: if_splits)

lemma classify_mode:
  assumes "parseQueueMode s = Some m"
  shows "classifyQueueToken s = ModeToken s"
  using parseQueueMode_names [OF assms]
  by (auto simp: classifyQueueToken_def startsWith_def)

lemma classify_debounce: "classifyQueueToken (''debounce:'' @ v) = DebounceToken v"
  by (simp add: classifyQueueToken_def startsWith_def)

lemma classify_cap: "classifyQueueToken (''cap:'' @ v) = CapToken v"
  by (simp add: classifyQueueToken_def startsWith_def)

lemma classify_drop: "classifyQueueToken (''drop:'' @ v) = DropToken v"
  by (simp add: classifyQueueToken_def startsWith_def)

lemma classify_reset: "classifyQueueToken ''reset'' = ResetToken"
  by (simp add: classifyQueueToken_def)

lemma storeUpdate_at: "storeUpdate now st k f k = Some ((f (storeGet st k))\<lparr> updatedAt := now \<rparr>)"
  by (simp add: storeUpdate_def)

lemma execute_set:
  assumes "parseQueueMode sm = Some m" "parseDuration sd = Some d"
    and "parseCap sc = Some c" "parseQueueDrop sp = Some p"
  shows "fst (executeQueueDirective now st k [sm, ''debounce:'' @ sd, ''cap:'' @ sc, ''drop:'' @ sp]) k
           = Some ((storeGet st k)\<lparr> queueMode := Some m, queueDebounceMs := Some d,
                     queueCap := Some c, queueDrop := Some p, updatedAt := now \<rparr>)"
proof -
  have toks: "map classifyQueueToken [sm, ''debounce:'' @ sd, ''cap:'' @ sc, ''drop:'' @ sp]
                = [ModeToken sm, DebounceToken sd, CapToken sc, DropToken sp]"
    using classify_mode [OF assms(1)]
    by (simp only: list.map classify_debounce classify_cap classify_drop)
  have errs: "List.map_filter queueTokenError [ModeToken sm, DebounceToken sd, CapToken sc, DropToken sp] = []"
    using assms by (simp add: List.map_filter_def)
  show ?thesis
    unfolding executeQueueDirective_def Let_def toks errs
    using assms by (simp add: storeUpdate_at)
qed

lemma execute_reset:
  "fst (executeQueueDirective now st k [''reset'']) k
     = Some ((storeGet st k)\<lparr> queueMode := None, queueDebounceMs := None,
               queueCap := None, queueDrop := None, updatedAt := now \<rparr>)"
proof -
  have toks: "map classifyQueueToken [''reset''] = [ResetToken]"
    by (simp only: list.map classify_reset)
  show ?thesis
    unfolding executeQueueDirective_def Let_def toks
    by (simp add: List.map_filter_def storeUpdate_at)
qed

lemma map_filter_nonempty:
  "t \<in> set ts \<Longrightarrow> f t = Some y \<Longrightarrow> List.map_filter f ts \<noteq> []"
  by (induction ts) (auto simp: List.map_filter_def)

text \<open>The parsers agree with the spec's words on the arguments.\<close>

lemma indexOf_None: "indexOf s c = None \<longleftrightarrow> c \<notin> set s"
  by (induction s) auto


lemma digit_cases:
  "specDigit c \<Longrightarrow>
     c = CHR ''0'' \<or> c = CHR ''1'' \<or> c = CHR ''2'' \<or> c = CHR ''3'' \<or> c = CHR ''4''
     \<or> c = CHR ''5'' \<or> c = CHR ''6'' \<or> c = CHR ''7'' \<or> c = CHR ''8'' \<or> c = CHR ''9''"
  by (simp add: specDigit_def)

lemma digitValue_digit:
  assumes "specDigit c"
  shows "digitValue c = Some (of_char c - 48)"
  using digit_cases [OF assms]
  by (elim disjE) (simp_all add: digitValue_def)

lemma digitValue_other: "\<not> specDigit c \<Longrightarrow> digitValue c = None"
  unfolding digitValue_def specDigit_def by (simp only: indexOf_None not_False_eq_True)

lemma parseDigits_spec:
  "parseDigits acc s =
     (if list_all specDigit s
      then Some (foldl (\<lambda>a c. 10 * a + (of_char c - 48)) acc s) else None)"
proof (induction s arbitrary: acc)
  case Nil
  then show ?case by simp
next
  case (Cons c cs)
  show ?case
  proof (cases "specDigit c")
    case True
    then show ?thesis
      using Cons.IH [of "10 * acc + (of_char c - 48)"]
      by (simp add: digitValue_digit)
  next
    case False
    then show ?thesis
      by (simp add: digitValue_other)
  qed
qed

lemma parseNat_spec:
  "parseNat s = (if specDecimal s then Some (specDecimalValue s) else None)"
  by (simp add: parseNat_def parseDigits_spec specDecimal_def specDecimalValue_def)

lemma parseCap_spec:
  "parseCap s = (if specPositive s then Some (specDecimalValue s) else None)"
  by (simp add: parseCap_def parseNat_spec specPositive_def)

lemma specDecimal_last: "specDecimal ds \<Longrightarrow> specDigit (last ds)"
  by (simp add: specDecimal_def list_all_iff)

lemma not_decimal_suffix:
  "\<not> specDigit c \<Longrightarrow> \<not> specDecimal (ds @ [c])"
  by (simp add: specDecimal_def)

lemma not_decimal_ms: "\<not> specDecimal (ds @ ''ms'')"
  by (simp add: specDecimal_def specDigit_def)

lemma drop_last1: "ds \<noteq> [] \<Longrightarrow> drop (length ds - Suc 0) ds = [last ds]"
  by (induction ds) (auto simp: Suc_diff_le drop_Cons split: nat.splits)

lemma parseDuration_plain:
  "specDecimal ds \<Longrightarrow> parseDuration ds = Some (specDecimalValue ds)"
  by (simp add: parseDuration_def parseNat_spec)

lemma parseDuration_ms:
  "specDecimal ds \<Longrightarrow> parseDuration (ds @ ''ms'') = Some (specDecimalValue ds)"
  using not_decimal_ms [of ds]
  by (simp add: parseDuration_def parseNat_spec endsWith_def)

lemma parseDuration_s:
  assumes "specDecimal ds"
  shows "parseDuration (ds @ ''s'') = Some (specDecimalValue ds * 1000)"
proof -
  have nd: "\<not> specDecimal (ds @ ''s'')"
    by (rule not_decimal_suffix) (simp add: specDigit_def)
  have ne: "ds \<noteq> []"
    using assms by (simp add: specDecimal_def)
  have "last ds \<noteq> CHR ''m''"
    using specDecimal_last [OF assms] by (auto simp: specDigit_def)
  then have nms: "\<not> endsWith (ds @ ''s'') ''ms''"
    using ne drop_last1 [OF ne] by (auto simp: endsWith_def)
  have es: "endsWith (ds @ ''s'') ''s''"
    by (simp add: endsWith_def)
  show ?thesis
    using assms nd nms es by (simp add: parseDuration_def parseNat_spec)
qed

lemma parseDuration_m:
  assumes "specDecimal ds"
  shows "parseDuration (ds @ ''m'') = Some (specDecimalValue ds * 60000)"
proof -
  have nd: "\<not> specDecimal (ds @ ''m'')"
    by (rule not_decimal_suffix) (simp add: specDigit_def)
  have nms: "\<not> endsWith (ds @ ''m'') ''ms''"
    by (auto simp: endsWith_def)
  have ns: "\<not> endsWith (ds @ ''m'') ''s''"
    by (auto simp: endsWith_def)
  have em: "endsWith (ds @ ''m'') ''m''"
    by (simp add: endsWith_def)
  show ?thesis
    using assms nd nms ns em by (simp add: parseDuration_def parseNat_spec)
qed

lemma suffixedI:
  "endsWith v sfx \<Longrightarrow> parseNat (take (length v - length sfx) v) = Some x \<Longrightarrow> specSuffixed v sfx"
  by (simp add: endsWith_def specSuffixed_def parseNat_spec split: if_splits)

lemma parseDuration_Some_spec:
  assumes "parseDuration v = Some x"
  shows "specDuration v"
proof (cases "parseNat v")
  case (Some n)
  then have "specDecimal v"
    by (simp add: parseNat_spec split: if_splits)
  then show ?thesis
    by (simp add: specDuration_def)
next
  case None
  show ?thesis
  proof (cases "endsWith v ''ms''")
    case True
    with assms None have "parseNat (take (length v - length ''ms'') v) = Some x"
      by (simp add: parseDuration_def numeral_2_eq_2)
    from suffixedI [OF True this] show ?thesis
      by (simp only: specDuration_def simp_thms)
  next
    case nms: False
    show ?thesis
    proof (cases "endsWith v ''s''")
      case True
      with assms None nms obtain y where "parseNat (take (length v - length ''s'') v) = Some y"
        by (auto simp: parseDuration_def)
      from suffixedI [OF True this] show ?thesis
        by (simp only: specDuration_def simp_thms)
    next
      case ns: False
      show ?thesis
      proof (cases "endsWith v ''m''")
        case True
        with assms None nms ns obtain y where "parseNat (take (length v - length ''m'') v) = Some y"
          by (auto simp: parseDuration_def)
        from suffixedI [OF True this] show ?thesis
          by (simp only: specDuration_def simp_thms)
      next
        case False
        with assms None nms ns show ?thesis
          by (simp add: parseDuration_def)
      qed
    qed
  qed
qed

lemma suffixed_split: "specSuffixed v sfx \<Longrightarrow> v = take (length v - length sfx) v @ sfx"
  unfolding specSuffixed_def by (metis append_take_drop_id)

lemma specDuration_parse: 
  assumes "specDuration v"
  shows "parseDuration v \<noteq> None"
proof -
  from assms consider "specDecimal v" | "specSuffixed v ''ms''" | "specSuffixed v ''s''"
    | "specSuffixed v ''m''"
    unfolding specDuration_def by blast
  then show ?thesis
  proof cases
    case 1
    then show ?thesis by (simp add: parseDuration_plain)
  next
    case 2
    then have d: "specDecimal (take (length v - length ''ms'') v)"
      by (simp only: specSuffixed_def)
    from parseDuration_ms [OF d] suffixed_split [OF 2] show ?thesis by simp
  next
    case 3
    then have d: "specDecimal (take (length v - length ''s'') v)"
      by (simp only: specSuffixed_def)
    from parseDuration_s [OF d] suffixed_split [OF 3] show ?thesis by simp
  next
    case 4
    then have d: "specDecimal (take (length v - length ''m'') v)"
      by (simp only: specSuffixed_def)
    from parseDuration_m [OF d] suffixed_split [OF 4] show ?thesis by simp
  qed
qed

lemma parseDuration_None: "parseDuration v = None \<longleftrightarrow> \<not> specDuration v"
  using parseDuration_Some_spec [of v] specDuration_parse [of v] by (cases "parseDuration v") auto

lemma parseCap_None: "parseCap v = None \<longleftrightarrow> \<not> specPositive v"
  by (simp add: parseCap_spec)

lemma parseQueueDrop_None:
  "parseQueueDrop v = None \<longleftrightarrow> v \<notin> {''old'', ''new'', ''summarize''}"
  by (simp add: parseQueueDrop_def)

lemma parseQueueMode_None:
  "parseQueueMode a = None \<longleftrightarrow>
     a \<notin> {''interrupt'', ''steer'', ''followup'', ''collect'', ''steer+backlog''}"
  by (simp add: parseQueueMode_def)

lemma startsWith_prefixes:
  "startsWith a ''debounce:'' = (take 9 a = ''debounce:'')"
  "startsWith a ''cap:'' = (take 4 a = ''cap:'')"
  "startsWith a ''drop:'' = (take 5 a = ''drop:'')"
  by (simp_all add: startsWith_def eval_nat_numeral)

lemma tokenError_spec: "queueTokenError (classifyQueueToken a) = specQueueArgError a"
  unfolding classifyQueueToken_def specQueueArgError_def startsWith_prefixes
  by (simp add: invalidLine_def dq_def
      parseDuration_None parseCap_None parseQueueDrop_None parseQueueMode_None)

lemma errors_spec:
  "List.map_filter queueTokenError (map classifyQueueToken args)
     = List.map_filter specQueueArgError args"
  by (induction args) (simp_all add: List.map_filter_def tokenError_spec)

lemma execute_errors:
  assumes "a \<in> set args" "specQueueArgError a = Some line"
  shows "executeQueueDirective now st k args = (st, List.map_filter specQueueArgError args)"
proof -
  have "List.map_filter specQueueArgError args \<noteq> []"
    using assms by (rule map_filter_nonempty)
  then show ?thesis
    by (simp add: executeQueueDirective_def Let_def errors_spec)
qed

lemma map_filter_member:
  "a \<in> set args \<Longrightarrow> f a = Some y \<Longrightarrow> y \<in> set (List.map_filter f args)"
  by (force simp: List.map_filter_def)

lemma spec_debounce_error:
  "\<not> specDuration v \<Longrightarrow>
     specQueueArgError (''debounce:'' @ v)
       = Some (''Invalid debounce '' @ [CHR 0x22] @ v @ [CHR 0x22] @ ''.'')"
  by (simp add: specQueueArgError_def)

lemma spec_cap_error:
  "\<not> specPositive v \<Longrightarrow>
     specQueueArgError (''cap:'' @ v) = Some (''Invalid cap '' @ [CHR 0x22] @ v @ [CHR 0x22] @ ''.'')"
  by (simp add: specQueueArgError_def)

lemma spec_drop_error:
  "v \<notin> {''old'', ''new'', ''summarize''} \<Longrightarrow>
     specQueueArgError (''drop:'' @ v)
       = Some (''Invalid drop policy '' @ [CHR 0x22] @ v @ [CHR 0x22] @ ''.'')"
  by (simp add: specQueueArgError_def)

lemma mode_table:
  assumes "(modeText, m) \<in> set [(''interrupt'', QueueInterrupt), (''steer'', QueueSteer),
             (''followup'', QueueFollowup), (''collect'', QueueCollect),
             (''steer+backlog'', QueueSteerBacklog)]"
  shows "parseQueueMode modeText = Some m"
proof -
  from assms have "(modeText = ''interrupt'' \<and> m = QueueInterrupt)
      \<or> (modeText = ''steer'' \<and> m = QueueSteer)
      \<or> (modeText = ''followup'' \<and> m = QueueFollowup)
      \<or> (modeText = ''collect'' \<and> m = QueueCollect)
      \<or> (modeText = ''steer+backlog'' \<and> m = QueueSteerBacklog)"
    by simp
  then show ?thesis
    by (elim disjE conjE) (simp_all add: parseQueueMode_def)
qed

lemma drop_table:
  assumes "(dropText, p) \<in> set [(''old'', DropOld), (''new'', DropNew), (''summarize'', DropSummarize)]"
  shows "parseQueueDrop dropText = Some p"
  using assms by (auto simp: parseQueueDrop_def)

lemma duration_table:
  assumes "specDecimal ds"
    and "(sfx, factor) \<in> set [([], 1), (''ms'', 1), (''s'', 1000), (''m'', 60000)]"
  shows "parseDuration (ds @ sfx) = Some (specDecimalValue ds * factor)"
  using assms(2) parseDuration_plain [OF assms(1)] parseDuration_ms [OF assms(1)]
    parseDuration_s [OF assms(1)] parseDuration_m [OF assms(1)]
  by auto

section \<open>The claims on the model resolver\<close>

text \<open>
  Claim C3, as amended. Every fuzzy resolution (every call of \<open>resolveFuzzy\<close>, with or
  without a provider) gives no result when it has no candidate, the selection of the
  candidate when it has exactly one, and otherwise the error "Ambiguous model" that lists
  the first five candidates at most, each as provider/model, followed by
  \<open>(+n more)\<close> with \<open>n\<close> the number of candidates minus five when there are more than
  five. When the reference has no exact resolution, \<open>resolveModelDirectiveSelection\<close>
  returns that selection or that error, and for no candidate the error
  "Unrecognized model" naming the trimmed input. (After an exact resolution to a key that
  is not allowed, no candidate leads to the "not allowed" error instead.)
\<close>

theorem resolveFuzzy_outcomes:
  "resolveFuzzy h rawTrimmed dp dm ai allowed pv fragment =
     (let cs = (if toLowerCase (trim fragment) = [] then []
                else fuzzyCandidates h ai allowed pv (toLowerCase (trim fragment)))
      in case cs of
           [] \<Rightarrow> NoResult
         | [c] \<Rightarrow> Selection (buildSelection h dp dm ai (provider c) (model c))
         | c # d # rest \<Rightarrow>
             Error (ambiguousError rawTrimmed (map formatCandidate (take 5 cs))
                      (if 5 < length cs then '' (+'' @ showNat (length cs - 5) @ '' more)'' else [])))
   \<and> (resolveModelRefFromString h (trim raw) dp ai = None \<longrightarrow>
        resolveModelDirectiveSelection h raw dp dm ai allowed =
          (case resolveFuzzy h (trim raw) dp dm ai allowed None (trim raw) of
             NoResult \<Rightarrow> Error (unrecognizedError (trim raw))
           | Selection s \<Rightarrow> Selection s
           | Error e \<Rightarrow> Error e))"
  using resolveFuzzy_cases [of h rawTrimmed dp dm ai allowed pv fragment]
    unresolved_result [of h raw dp ai dm allowed]
  by blast

text \<open>
  The reference \<open>claude\<close> resolves to nothing exactly and matches seven allowed keys: five
  are listed, two remain.
\<close>

theorem resolveFuzzy_outcomes_witness:
  "resolveModelRefFromString (specHelpers exampleCatalog) (trim ''claude'') ''openai'' noAliases = None
   \<and> resolveModelDirectiveSelection (specHelpers exampleCatalog) ''claude'' ''openai''
         ''gpt-4.1-mini'' noAliases claudeKeys =
       Error (ambiguousError ''claude''
                [''anthropic/claude-opus-4-5'', ''anthropic/claude-sonnet-4-1'',
                 ''anthropic/claude-a'', ''anthropic/claude-b'', ''anthropic/claude-c'']
                '' (+2 more)'')"
proof -
  have unresolved:
    "resolveModelRefFromString (specHelpers exampleCatalog) (trim ''claude'') ''openai'' noAliases = None"
    by code_simp
  have fuzzy:
    "resolveFuzzy (specHelpers exampleCatalog) (trim ''claude'') ''openai'' ''gpt-4.1-mini''
       noAliases claudeKeys None (trim ''claude'') =
     Error (ambiguousError ''claude''
                [''anthropic/claude-opus-4-5'', ''anthropic/claude-sonnet-4-1'',
                 ''anthropic/claude-a'', ''anthropic/claude-b'', ''anthropic/claude-c'']
                '' (+2 more)'')"
    by code_simp
  from resolveFuzzy_outcomes [of "specHelpers exampleCatalog" "''x''" "''openai''" "''gpt-4.1-mini''"
      noAliases claudeKeys None "''x''" "''claude''"] unresolved
  have "resolveModelDirectiveSelection (specHelpers exampleCatalog) ''claude'' ''openai''
         ''gpt-4.1-mini'' noAliases claudeKeys =
        (case resolveFuzzy (specHelpers exampleCatalog) (trim ''claude'') ''openai'' ''gpt-4.1-mini''
                noAliases claudeKeys None (trim ''claude'') of
             NoResult \<Rightarrow> Error (unrecognizedError (trim ''claude''))
           | Selection s \<Rightarrow> Selection s
           | Error e \<Rightarrow> Error e)"
    by blast
  with unresolved fuzzy show ?thesis
    by simp
qed

text \<open>
  Without the amendment the claim fails: \<open>openai/gpt-4.1-mini\<close> resolves exactly, its key is not
  allowed, both fuzzy resolutions that follow have no candidate, and the error is the
  "not allowed" one, not "Unrecognized model".
\<close>

theorem fuzzy_zero_candidates_counterexample:
  "fuzzyCandidates (specHelpers exampleCatalog) noAliases
      [''anthropic/claude-opus-4-5'', ''anthropic/claude-sonnet-4-1''] (Some ''openai'') ''gpt-4.1-mini'' = []
   \<and> fuzzyCandidates (specHelpers exampleCatalog) noAliases
      [''anthropic/claude-opus-4-5'', ''anthropic/claude-sonnet-4-1''] None ''openai/gpt-4.1-mini'' = []
   \<and> resolveModelDirectiveSelection (specHelpers exampleCatalog) ''openai/gpt-4.1-mini''
        ''anthropic'' ''claude-opus-4-5'' noAliases
        [''anthropic/claude-opus-4-5'', ''anthropic/claude-sonnet-4-1'']
       = Error (notAllowedError \<lparr> provider = ''openai'', model = ''gpt-4.1-mini'' \<rparr>)
   \<and> resolveModelDirectiveSelection (specHelpers exampleCatalog) ''openai/gpt-4.1-mini''
        ''anthropic'' ''claude-opus-4-5'' noAliases
        [''anthropic/claude-opus-4-5'', ''anthropic/claude-sonnet-4-1'']
       \<noteq> Error (unrecognizedError ''openai/gpt-4.1-mini'')"
  by code_simp

text \<open>
  Claim C4, as amended. For every reference that resolves exactly to a key that is not
  in the non-empty allowlist, \<open>resolveModelDirectiveSelection\<close> retries by fuzzy matching,
  first within the provider named before the slash of the reference, then across all
  allowed models, and returns the first fuzzy result there is (a selection or an
  "Ambiguous model" error). Only when neither retry has a result does it return the
  error "Model ... is not allowed" naming the resolved provider/model, and then no
  selection is produced.
\<close>

theorem disallowed_exact_match_retries_fuzzy:
  assumes "resolveModelRefFromString h (trim raw) dp ai = Some (r, al)"
    and "allowed \<noteq> []"
    and "modelKey h (provider r) (model r) \<notin> set allowed"
  shows "resolveModelDirectiveSelection h raw dp dm ai allowed =
           (if scopedFuzzy h (trim raw) dp dm ai allowed \<noteq> NoResult
            then scopedFuzzy h (trim raw) dp dm ai allowed
            else if unscopedFuzzy h (trim raw) dp dm ai allowed \<noteq> NoResult
            then unscopedFuzzy h (trim raw) dp dm ai allowed
            else Error (notAllowedError r))
         \<and> (scopedFuzzy h (trim raw) dp dm ai allowed = NoResult
              \<and> unscopedFuzzy h (trim raw) dp dm ai allowed = NoResult
            \<longrightarrow> resolveModelDirectiveSelection h raw dp dm ai allowed = Error (notAllowedError r)
                \<and> selectedRef (resolveModelDirectiveSelection h raw dp dm ai allowed) = None)"
  using disallowed_result [OF assms, of dm]
  by (simp add: selectedRef_def)

text \<open>
  \<open>anthropic/claude-sonnet-4-1\<close> is in the catalog and not allowed, and neither retry
  matches an allowed key.
\<close>

theorem disallowed_exact_match_retries_fuzzy_witness:
  "resolveModelDirectiveSelection (specHelpers exampleCatalog) ''anthropic/claude-sonnet-4-1''
      ''anthropic'' ''claude-opus-4-5'' noAliases
      [''anthropic/claude-opus-4-5'', ''openai/gpt-4.1-mini'']
     = Error (notAllowedError \<lparr> provider = ''anthropic'', model = ''claude-sonnet-4-1'' \<rparr>)
   \<and> selectedRef (resolveModelDirectiveSelection (specHelpers exampleCatalog)
         ''anthropic/claude-sonnet-4-1'' ''anthropic'' ''claude-opus-4-5'' noAliases
         [''anthropic/claude-opus-4-5'', ''openai/gpt-4.1-mini'']) = None"
proof -
  let ?h = "specHelpers exampleCatalog"
  let ?allowed = "[''anthropic/claude-opus-4-5'', ''openai/gpt-4.1-mini'']"
  let ?r = "\<lparr> provider = ''anthropic'', model = ''claude-sonnet-4-1'' \<rparr>"
  have exact: "resolveModelRefFromString ?h (trim ''anthropic/claude-sonnet-4-1'') ''anthropic''
                 noAliases = Some (?r, None)"
    by code_simp
  have nonempty: "?allowed \<noteq> []"
    by simp
  have disallowed: "modelKey ?h (provider ?r) (model ?r) \<notin> set ?allowed"
    by code_simp
  have scoped: "scopedFuzzy ?h (trim ''anthropic/claude-sonnet-4-1'') ''anthropic''
                  ''claude-opus-4-5'' noAliases ?allowed = NoResult"
    by code_simp
  have unscoped: "unscopedFuzzy ?h (trim ''anthropic/claude-sonnet-4-1'') ''anthropic''
                  ''claude-opus-4-5'' noAliases ?allowed = NoResult"
    by code_simp
  from disallowed_exact_match_retries_fuzzy [OF exact nonempty disallowed, of "''claude-opus-4-5''"]
    scoped unscoped
  show ?thesis
    by blast
qed

text \<open>
  Without the amendment the claim fails: \<open>anthropic/claude-opus-4\<close> resolves exactly to a key that is
  not in the non-empty allowlist, and the retry within \<open>anthropic\<close> selects the allowed
  \<open>claude-opus-4-5\<close>.
\<close>

theorem disallowed_exact_match_counterexample:
  "resolveModelRefFromString (specHelpers exampleCatalog) (trim ''anthropic/claude-opus-4'')
      ''anthropic'' noAliases
     = Some (\<lparr> provider = ''anthropic'', model = ''claude-opus-4'' \<rparr>, None)
   \<and> modelKey (specHelpers exampleCatalog) ''anthropic'' ''claude-opus-4''
       \<notin> set [''anthropic/claude-opus-4-5'']
   \<and> resolveModelDirectiveSelection (specHelpers exampleCatalog) ''anthropic/claude-opus-4''
        ''anthropic'' ''claude-opus-4-5'' noAliases [''anthropic/claude-opus-4-5'']
       = Selection \<lparr> provider = ''anthropic'', model = ''claude-opus-4-5'', isDefault = True,
                     aliasName = None \<rparr>"
  by code_simp




text \<open>
  Why the alias must not be the name of a catalog model: exact names come first in the
  resolver's order, so an alias spelled \<open>gpt-4.1-mini\<close> for the Opus model is resolved as
  the catalog model of that name.
\<close>

lemma alias_shadowed_by_catalog_model:
  "map_of (byAlias \<lparr> byAlias = [(''gpt-4.1-mini'', opusEntry)], byKey = [] \<rparr>) ''gpt-4.1-mini''
     = Some opusEntry
   \<and> selectedRef (resolveModelDirectiveSelection (specHelpers exampleCatalog) ''gpt-4.1-mini''
        ''openai'' ''gpt-4.1-mini'' \<lparr> byAlias = [(''gpt-4.1-mini'', opusEntry)], byKey = [] \<rparr> [])
     = Some \<lparr> provider = ''openai'', model = ''gpt-4.1-mini'' \<rparr>"
  by code_simp

section \<open>The claim on createModelSelectionState\<close>

text \<open>
  Claim C10, as amended. When the session entry, the session store and a non-empty
  session key are all supplied, and the entry carries a model override that is not blank
  and whose key (the trimmed provider override or else the default provider, with the
  trimmed model override) is not in the non-empty allowlist, then
  \<open>createModelSelectionState\<close> deletes \<open>providerOverride\<close> and \<open>modelOverride\<close> from the
  entry, sets \<open>updatedAt\<close> to the clock, writes the entry into the store under the session
  key, saves the store first of all when a store path is supplied, sets
  \<open>resetModelOverride\<close>, and returns the provider and model that were passed in. For every
  input, the provider and model returned are the ones passed in, or the allowlist is
  empty, or their key is allowed.
\<close>

theorem createModelSelectionState_resets_disallowed_override:
  "(\<forall>e st k mo.
       sessionEntry params = Some e \<and> sessionStore params = Some st
       \<and> sessionKey params = Some k \<and> k \<noteq> []
       \<and> modelOverride e = Some mo \<and> trim mo \<noteq> []
       \<and> allowedKeys (loadedAllowed env) \<noteq> []
       \<and> modelKey h (trimmedOr (providerOverride e) (defaultProvider params)) (trim mo)
            \<notin> set (allowedKeys (loadedAllowed env))
     \<longrightarrow>
       (\<exists>e' st'. entryNow (files (createModelSelectionState h env params)) = Some e'
            \<and> storeNow (files (createModelSelectionState h env params)) = Some st'
            \<and> st' k = Some e'
            \<and> providerOverride e' = None \<and> modelOverride e' = None
            \<and> updatedAt e' \<in> {nowAtOverrideReset env, nowAtAuthReset env})
       \<and> (\<exists>more. saved (files (createModelSelectionState h env params)) =
              saveSessionStore (storePath params)
                (st(k \<mapsto> e\<lparr> providerOverride := None, modelOverride := None,
                               updatedAt := nowAtOverrideReset env \<rparr>)) @ more)
       \<and> resetModelOverride (state (createModelSelectionState h env params))
       \<and> provider (state (createModelSelectionState h env params)) = provider params
       \<and> model (state (createModelSelectionState h env params)) = model params)
   \<and> ((provider (state (createModelSelectionState h env params)) = provider params
          \<and> model (state (createModelSelectionState h env params)) = model params)
        \<or> allowedModelKeys (state (createModelSelectionState h env params)) = []
        \<or> modelKey h (provider (state (createModelSelectionState h env params)))
                      (model (state (createModelSelectionState h env params)))
             \<in> set (allowedModelKeys (state (createModelSelectionState h env params))))"
proof (intro conjI allI impI)
  fix e st k mo
  assume a: "sessionEntry params = Some e \<and> sessionStore params = Some st
       \<and> sessionKey params = Some k \<and> k \<noteq> []
       \<and> modelOverride e = Some mo \<and> trim mo \<noteq> []
       \<and> allowedKeys (loadedAllowed env) \<noteq> []
       \<and> modelKey h (trimmedOr (providerOverride e) (defaultProvider params)) (trim mo)
            \<notin> set (allowedKeys (loadedAllowed env))"
  then have r: "(\<exists>e' st'. entryNow (files (createModelSelectionState h env params)) = Some e'
            \<and> storeNow (files (createModelSelectionState h env params)) = Some st'
            \<and> st' k = Some e'
            \<and> providerOverride e' = None \<and> modelOverride e' = None
            \<and> updatedAt e' \<in> {nowAtOverrideReset env, nowAtAuthReset env})
       \<and> (\<exists>more. saved (files (createModelSelectionState h env params)) =
              saveSessionStore (storePath params)
                (st(k \<mapsto> e\<lparr> providerOverride := None, modelOverride := None,
                               updatedAt := nowAtOverrideReset env \<rparr>)) @ more)
       \<and> resetModelOverride (state (createModelSelectionState h env params))
       \<and> provider (state (createModelSelectionState h env params)) = provider params
       \<and> model (state (createModelSelectionState h env params)) = model params"
    using create_resets [of params e st k mo env h] by blast
  from r show "\<exists>e' st'. entryNow (files (createModelSelectionState h env params)) = Some e'
            \<and> storeNow (files (createModelSelectionState h env params)) = Some st'
            \<and> st' k = Some e'
            \<and> providerOverride e' = None \<and> modelOverride e' = None
            \<and> updatedAt e' \<in> {nowAtOverrideReset env, nowAtAuthReset env}"
    by blast
  from r show "\<exists>more. saved (files (createModelSelectionState h env params)) =
              saveSessionStore (storePath params)
                (st(k \<mapsto> e\<lparr> providerOverride := None, modelOverride := None,
                               updatedAt := nowAtOverrideReset env \<rparr>)) @ more"
    by blast
  from r show "resetModelOverride (state (createModelSelectionState h env params))"
    by blast
  from r show "provider (state (createModelSelectionState h env params)) = provider params"
    by blast
  from r show "model (state (createModelSelectionState h env params)) = model params"
    by blast
next
  show "(provider (state (createModelSelectionState h env params)) = provider params
          \<and> model (state (createModelSelectionState h env params)) = model params)
        \<or> allowedModelKeys (state (createModelSelectionState h env params)) = []
        \<or> modelKey h (provider (state (createModelSelectionState h env params)))
                      (model (state (createModelSelectionState h env params)))
             \<in> set (allowedModelKeys (state (createModelSelectionState h env params)))"
    by (rule create_effective)
qed

text \<open>
  A stored override \<open>openai/gpt-9\<close> against the allowlist of \<open>anthropic/claude-opus-4-5\<close>.
\<close>

theorem createModelSelectionState_resets_witness:
  "resetModelOverride (state (createModelSelectionState (specHelpers exampleCatalog)
       exampleCollaborators staleParams))
   \<and> provider (state (createModelSelectionState (specHelpers exampleCatalog)
       exampleCollaborators staleParams)) = ''anthropic''
   \<and> model (state (createModelSelectionState (specHelpers exampleCatalog)
       exampleCollaborators staleParams)) = ''claude-opus-4-5''
   \<and> (\<exists>e' st'. entryNow (files (createModelSelectionState (specHelpers exampleCatalog)
                      exampleCollaborators staleParams)) = Some e'
         \<and> storeNow (files (createModelSelectionState (specHelpers exampleCatalog)
                      exampleCollaborators staleParams)) = Some st'
         \<and> st' ''agent:main:main'' = Some e'
         \<and> providerOverride e' = None \<and> modelOverride e' = None)"
proof -
  let ?h = "specHelpers exampleCatalog"
  have hyps: "sessionEntry staleParams = Some staleEntry
       \<and> sessionStore staleParams = Some [''agent:main:main'' \<mapsto> staleEntry]
       \<and> sessionKey staleParams = Some ''agent:main:main'' \<and> ''agent:main:main'' \<noteq> []
       \<and> modelOverride staleEntry = Some ''gpt-9'' \<and> trim ''gpt-9'' \<noteq> []
       \<and> allowedKeys (loadedAllowed exampleCollaborators) \<noteq> []
       \<and> modelKey ?h (trimmedOr (providerOverride staleEntry) (defaultProvider staleParams))
             (trim ''gpt-9'')
            \<notin> set (allowedKeys (loadedAllowed exampleCollaborators))"
    by (simp add: staleParams_def staleEntry_def exampleCollaborators_def specHelpers_def
        specModelKey_def trimmedOr_def trim_def isSpace_def)
  have pm: "provider staleParams = ''anthropic''" "model staleParams = ''claude-opus-4-5''"
    by (simp_all add: staleParams_def)
  from createModelSelectionState_resets_disallowed_override
         [of staleParams exampleCollaborators ?h] hyps
  have "(\<exists>e' st'. entryNow (files (createModelSelectionState ?h exampleCollaborators staleParams)) = Some e'
            \<and> storeNow (files (createModelSelectionState ?h exampleCollaborators staleParams)) = Some st'
            \<and> st' ''agent:main:main'' = Some e'
            \<and> providerOverride e' = None \<and> modelOverride e' = None
            \<and> updatedAt e' \<in> {nowAtOverrideReset exampleCollaborators, nowAtAuthReset exampleCollaborators})
       \<and> resetModelOverride (state (createModelSelectionState ?h exampleCollaborators staleParams))
       \<and> provider (state (createModelSelectionState ?h exampleCollaborators staleParams)) = provider staleParams
       \<and> model (state (createModelSelectionState ?h exampleCollaborators staleParams)) = model staleParams"
    by blast
  then show ?thesis
    unfolding pm by blast
qed

text \<open>
  Without the amendment the claim fails: without a session store and a session key the same stale
  override stays in the entry and nothing is saved; and the provider and model returned
  are the ones passed in, here not the configured defaults.
\<close>

theorem createModelSelectionState_storeless_counterexample:
  "hasStoredOverride (sessionEntry storelessParams)
   \<and> sessionEntry storelessParams = Some staleEntry
   \<and> modelOverride staleEntry = Some ''gpt-9''
   \<and> providerOverride staleEntry = Some ''openai''
   \<and> allowedKeys (loadedAllowed exampleCollaborators) \<noteq> []
   \<and> modelKey (specHelpers exampleCatalog) ''openai'' ''gpt-9''
        \<notin> set (allowedKeys (loadedAllowed exampleCollaborators))
   \<and> entryNow (files (createModelSelectionState (specHelpers exampleCatalog)
        exampleCollaborators storelessParams)) = Some staleEntry
   \<and> saved (files (createModelSelectionState (specHelpers exampleCatalog)
        exampleCollaborators storelessParams)) = []
   \<and> resetModelOverride (state (createModelSelectionState (specHelpers exampleCatalog)
        exampleCollaborators storelessParams)) = False
   \<and> defaultProvider storelessParams = ''anthropic''
   \<and> defaultModel storelessParams = ''claude-opus-4-5''
   \<and> provider (state (createModelSelectionState (specHelpers exampleCatalog)
        exampleCollaborators storelessParams)) = ''openai''
   \<and> model (state (createModelSelectionState (specHelpers exampleCatalog)
        exampleCollaborators storelessParams)) = ''gpt-4.1-mini''"
  by (simp add: createModelSelectionState_def resetDisallowedOverride_def effectiveModel_def
      clearStaleAuthProfile_def storelessParams_def staleParams_def staleEntry_def
      exampleCollaborators_def specHelpers_def specModelKey_def hasStoredOverride_def
      truthyStr_def trimmedOr_def trim_def isSpace_def Let_def)

section \<open>The claims on the queue directive\<close>

text \<open>
  Claim C1. For every valid directive \<open>queue <mode> debounce:<d> cap:<n> drop:<p>\<close>,
  that is for each of the five mode names, every decimal text alone or followed by
  \<open>ms\<close>, \<open>s\<close> or \<open>m\<close>, every decimal text of a positive value and each of the three policy
  names, executing it stores an entry whose \<open>queueMode\<close> is the mode of that name, whose
  \<open>queueDebounceMs\<close> is the value of the duration in milliseconds (times 1000 for \<open>s\<close>,
  times 60000 for \<open>m\<close>), whose \<open>queueCap\<close> is the value of the cap and whose \<open>queueDrop\<close> is
  the policy of that name, whatever the store held before; and \<open>queue reset\<close> after it
  stores an entry in which all four are unset.
\<close>

theorem queue_directive_persists_and_resets:
  assumes "(modeText, m) \<in> set [(''interrupt'', QueueInterrupt), (''steer'', QueueSteer),
             (''followup'', QueueFollowup), (''collect'', QueueCollect),
             (''steer+backlog'', QueueSteerBacklog)]"
    and "specDecimal ds"
    and "(sfx, factor) \<in> set [([], 1), (''ms'', 1), (''s'', 1000), (''m'', 60000)]"
    and "specDecimal cs" and "0 < specDecimalValue cs"
    and "(dropText, p) \<in> set [(''old'', DropOld), (''new'', DropNew), (''summarize'', DropSummarize)]"
  shows "(\<exists>e1. fst (executeQueueDirective now1 st k
                     [modeText, ''debounce:'' @ ds @ sfx, ''cap:'' @ cs, ''drop:'' @ dropText]) k
              = Some e1
            \<and> queueMode e1 = Some m
            \<and> queueDebounceMs e1 = Some (specDecimalValue ds * factor)
            \<and> queueCap e1 = Some (specDecimalValue cs)
            \<and> queueDrop e1 = Some p)
       \<and> (\<exists>e2. fst (executeQueueDirective now2
                     (fst (executeQueueDirective now1 st k
                        [modeText, ''debounce:'' @ ds @ sfx, ''cap:'' @ cs, ''drop:'' @ dropText]))
                     k [''reset'']) k = Some e2
            \<and> queueMode e2 = None \<and> queueDebounceMs e2 = None
            \<and> queueCap e2 = None \<and> queueDrop e2 = None)"
proof -
  have m: "parseQueueMode modeText = Some m"
    using assms(1) by (rule mode_table)
  have d: "parseDuration (ds @ sfx) = Some (specDecimalValue ds * factor)"
    using assms(2,3) by (rule duration_table)
  have c: "parseCap cs = Some (specDecimalValue cs)"
    using assms(4,5) by (simp add: parseCap_spec specPositive_def)
  have p: "parseQueueDrop dropText = Some p"
    using assms(6) by (rule drop_table)
  show ?thesis
    using execute_set [OF m d c p, of now1 st k]
      execute_reset [of now2 "fst (executeQueueDirective now1 st k
                        [modeText, ''debounce:'' @ ds @ sfx, ''cap:'' @ cs, ''drop:'' @ dropText])" k]
    by simp
qed

text \<open>
  The directive \<open>queue collect debounce:2s cap:5 drop:old\<close> of the tests, on a store that
  holds other queue settings, followed by \<open>queue reset\<close>; and
  \<open>queue steer+backlog debounce:1500 cap:12 drop:summarize\<close> on the empty store.
\<close>

theorem queue_directive_persists_and_resets_witness:
  "(\<exists>e1. fst (executeQueueDirective 10 busyStore ''agent:main:main''
                     [''collect'', ''debounce:2s'', ''cap:5'', ''drop:old'']) ''agent:main:main'' = Some e1
            \<and> queueMode e1 = Some QueueCollect \<and> queueDebounceMs e1 = Some 2000
            \<and> queueCap e1 = Some 5 \<and> queueDrop e1 = Some DropOld)
   \<and> (\<exists>e2. fst (executeQueueDirective 20
                     (fst (executeQueueDirective 10 busyStore ''agent:main:main''
                        [''collect'', ''debounce:2s'', ''cap:5'', ''drop:old'']))
                     ''agent:main:main'' [''reset'']) ''agent:main:main'' = Some e2
            \<and> queueMode e2 = None \<and> queueDebounceMs e2 = None
            \<and> queueCap e2 = None \<and> queueDrop e2 = None)
   \<and> (\<exists>e3. fst (executeQueueDirective 30 Map.empty ''agent:main:main''
                     [''steer+backlog'', ''debounce:1500'', ''cap:12'', ''drop:summarize''])
                ''agent:main:main'' = Some e3
            \<and> queueMode e3 = Some QueueSteerBacklog \<and> queueDebounceMs e3 = Some 1500
            \<and> queueCap e3 = Some 12 \<and> queueDrop e3 = Some DropSummarize)"
proof -
  have m: "(''collect'', QueueCollect) \<in> set [(''interrupt'', QueueInterrupt), (''steer'', QueueSteer),
             (''followup'', QueueFollowup), (''collect'', QueueCollect),
             (''steer+backlog'', QueueSteerBacklog)]"
    by simp
  have d: "specDecimal ''2''" "specDecimalValue ''2'' = 2"
    by code_simp+
  have u: "(''s'', 1000::nat) \<in> set [([], 1), (''ms'', 1), (''s'', 1000), (''m'', 60000)]"
    by simp
  have c: "specDecimal ''5''" "specDecimalValue ''5'' = 5"
    by code_simp+
  have c0: "0 < specDecimalValue ''5''"
    by (simp add: c(2))
  have p: "(''old'', DropOld) \<in> set [(''old'', DropOld), (''new'', DropNew), (''summarize'', DropSummarize)]"
    by simp
  have m': "(''steer+backlog'', QueueSteerBacklog) \<in> set [(''interrupt'', QueueInterrupt),
             (''steer'', QueueSteer), (''followup'', QueueFollowup), (''collect'', QueueCollect),
             (''steer+backlog'', QueueSteerBacklog)]"
    by simp
  have d': "specDecimal ''1500''" "specDecimalValue ''1500'' = 1500"
    by code_simp+
  have u': "([], 1::nat) \<in> set [([], 1), (''ms'', 1), (''s'', 1000), (''m'', 60000)]"
    by simp
  have c': "specDecimal ''12''" "specDecimalValue ''12'' = 12"
    by code_simp+
  have c0': "0 < specDecimalValue ''12''"
    by (simp add: c'(2))
  have p': "(''summarize'', DropSummarize) \<in> set [(''old'', DropOld), (''new'', DropNew),
              (''summarize'', DropSummarize)]"
    by simp
  from queue_directive_persists_and_resets [OF m d(1) u c(1) c0 p,
         of 10 busyStore "''agent:main:main''" 20]
    queue_directive_persists_and_resets [OF m' d'(1) u' c'(1) c0' p',
         of 30 Map.empty "''agent:main:main''" 40]
  show ?thesis
    by (simp add: d(2) c(2) d'(2) c'(2))
qed

text \<open>
  Claim C2. For every \<open>queue\<close> command with an invalid token, that is a \<open>debounce:\<close> token
  whose value is no duration, a \<open>cap:\<close> token whose value is no positive decimal text or a
  \<open>drop:\<close> token whose value is none of \<open>old\<close>, \<open>new\<close>, \<open>summarize\<close>: the store is unchanged;
  the response is, argument by argument and in their order, the error line the spec
  asks of each argument that has one; and so every invalid token has its own line in
  that one response, \<open>Invalid debounce\<close>, \<open>Invalid cap\<close> or \<open>Invalid drop policy\<close> followed
  by the value between double quotes.
\<close>

theorem queue_invalid_options_all_reported:
  assumes "(\<exists>v. ''debounce:'' @ v \<in> set args \<and> \<not> specDuration v)
         \<or> (\<exists>v. ''cap:'' @ v \<in> set args \<and> \<not> specPositive v)
         \<or> (\<exists>v. ''drop:'' @ v \<in> set args \<and> v \<notin> {''old'', ''new'', ''summarize''})"
  shows "fst (executeQueueDirective now st k args) = st
       \<and> snd (executeQueueDirective now st k args) = List.map_filter specQueueArgError args
       \<and> (\<forall>v. ''debounce:'' @ v \<in> set args \<and> \<not> specDuration v \<longrightarrow>
              ''Invalid debounce '' @ [CHR 0x22] @ v @ [CHR 0x22] @ ''.''
                \<in> set (snd (executeQueueDirective now st k args)))
       \<and> (\<forall>v. ''cap:'' @ v \<in> set args \<and> \<not> specPositive v \<longrightarrow>
              ''Invalid cap '' @ [CHR 0x22] @ v @ [CHR 0x22] @ ''.''
                \<in> set (snd (executeQueueDirective now st k args)))
       \<and> (\<forall>v. ''drop:'' @ v \<in> set args \<and> v \<notin> {''old'', ''new'', ''summarize''} \<longrightarrow>
              ''Invalid drop policy '' @ [CHR 0x22] @ v @ [CHR 0x22] @ ''.''
                \<in> set (snd (executeQueueDirective now st k args)))"
proof -
  from assms obtain a line where a: "a \<in> set args" "specQueueArgError a = Some line"
    using spec_debounce_error spec_cap_error spec_drop_error by blast
  have r: "executeQueueDirective now st k args = (st, List.map_filter specQueueArgError args)"
    using a by (rule execute_errors)
  have deb: "''Invalid debounce '' @ [CHR 0x22] @ v @ [CHR 0x22] @ ''.''
               \<in> set (List.map_filter specQueueArgError args)"
    if "''debounce:'' @ v \<in> set args" "\<not> specDuration v" for v
    using that(1) spec_debounce_error [OF that(2)] by (rule map_filter_member)
  have cap: "''Invalid cap '' @ [CHR 0x22] @ v @ [CHR 0x22] @ ''.''
               \<in> set (List.map_filter specQueueArgError args)"
    if "''cap:'' @ v \<in> set args" "\<not> specPositive v" for v
    using that(1) spec_cap_error [OF that(2)] by (rule map_filter_member)
  have drp: "''Invalid drop policy '' @ [CHR 0x22] @ v @ [CHR 0x22] @ ''.''
               \<in> set (List.map_filter specQueueArgError args)"
    if "''drop:'' @ v \<in> set args" "v \<notin> {''old'', ''new'', ''summarize''}" for v
    using that(1) spec_drop_error [OF that(2)] by (rule map_filter_member)
  show ?thesis
    unfolding r fst_conv snd_conv using deb cap drp by blast
qed

text \<open>
  The command \<open>queue collect debounce:bogus cap:zero drop:maybe\<close> of the tests, on a store
  that holds queue settings.
\<close>

theorem queue_invalid_options_witness:
  "executeQueueDirective 10 busyStore ''agent:main:main''
      [''collect'', ''debounce:bogus'', ''cap:zero'', ''drop:maybe'']
     = (busyStore,
        [''Invalid debounce '' @ [CHR 0x22] @ ''bogus'' @ [CHR 0x22] @ ''.'',
         ''Invalid cap '' @ [CHR 0x22] @ ''zero'' @ [CHR 0x22] @ ''.'',
         ''Invalid drop policy '' @ [CHR 0x22] @ ''maybe'' @ [CHR 0x22] @ ''.''])"
proof -
  let ?args = "[''collect'', ''debounce:bogus'', ''cap:zero'', ''drop:maybe'']"
  have nd: "\<not> specDuration ''bogus''"
    by code_simp
  have member: "''debounce:'' @ ''bogus'' \<in> set ?args"
    by simp
  have bad: "(\<exists>v. ''debounce:'' @ v \<in> set ?args \<and> \<not> specDuration v)
         \<or> (\<exists>v. ''cap:'' @ v \<in> set ?args \<and> \<not> specPositive v)
         \<or> (\<exists>v. ''drop:'' @ v \<in> set ?args \<and> v \<notin> {''old'', ''new'', ''summarize''})"
    using nd member by blast
  have lines: "List.map_filter specQueueArgError ?args
     = [''Invalid debounce '' @ [CHR 0x22] @ ''bogus'' @ [CHR 0x22] @ ''.'',
         ''Invalid cap '' @ [CHR 0x22] @ ''zero'' @ [CHR 0x22] @ ''.'',
         ''Invalid drop policy '' @ [CHR 0x22] @ ''maybe'' @ [CHR 0x22] @ ''.'']"
    by code_simp
  from queue_invalid_options_all_reported [OF bad, of 10 busyStore "''agent:main:main''"] lines
  show ?thesis
    by (simp add: prod_eq_iff)
qed

end
